theory Spec2Isabelle
  imports Main
begin

section \<open>Data model\<close>

text \<open>
  The chat server keeps three kinds of state: the in-memory registry of the Hub
  (\<^verbatim>\<open>internal/services/hub.go\<close>), the relational store reached through
  \<^verbatim>\<open>database.DB\<close>, and the optional Redis cache (\<^verbatim>\<open>internal/services/redis.go\<close>).
  Go's \<^verbatim>\<open>uint\<close> identifiers are only compared and stored, never computed with, so
  they are natural numbers here. A \<^verbatim>\<open>*Client\<close> is an address into a heap of
  \<^verbatim>\<open>Client\<close> structs.
\<close>

type_synonym uint = nat
type_synonym cref = nat

subsection \<open>Store rows (package models)\<close>

record User =
  Username :: string
  Email :: string
  Nickname :: string
  Avatar :: string
  IsOnline :: bool
  LastSeen :: "nat option"

datatype MessageType = MessageTypeText | MessageTypeImage | MessageTypeFile | MessageTypeSystem

record Message =
  msgID :: uint
  msgRoomID :: uint
  msgUserID :: uint
  msgType :: MessageType
  msgContent :: string
  msgCreatedAt :: nat

record RoomMember =
  rmRoomID :: uint
  rmUserID :: uint
  rmRole :: string
  rmJoinedAt :: nat

subsection \<open>Frames\<close>

text \<open>
  \<^verbatim>\<open>WebSocketMessage.Data\<close> is an \<^verbatim>\<open>interface{}\<close>; the code puts four shapes
  into it: \<^verbatim>\<open>{"user": user.ToJSON()}\<close>, \<^verbatim>\<open>{"user_id": id}\<close>,
  \<^verbatim>\<open>{"users": [...]}\<close> and \<^verbatim>\<open>message.ToJSON()\<close> (the record with the
  preloaded author, absent when the author row is missing). A frame on a queue is the
  JSON of a \<^verbatim>\<open>WebSocketMessage\<close>; \<^verbatim>\<open>json.Marshal\<close> cannot fail on these
  shapes, so the model queues the value itself.
\<close>

datatype payload =
    NoData
  | UserJoinedData uint User
  | UserLeftData uint
  | OnlineUsersData "(uint \<times> User) list"
  | ChatData Message "User option"

record WebSocketMessage =
  wsType :: string
  wsRoomID :: uint
  wsContent :: string
  wsData :: payload

subsection \<open>Channels, clients, the Hub\<close>

text \<open>
  \<^verbatim>\<open>Client.Send\<close> is a buffered channel made with capacity 256 in
  \<^verbatim>\<open>HandleWebSocket\<close>. Each client has a channel of its own, so the channel's state
  is a field of the client.
\<close>

record chan =
  closed :: bool
  buf :: "WebSocketMessage list"

definition sendCap :: nat where
  "sendCap = 256"

record Client =
  ID :: string
  UserID :: uint
  RoomID :: uint
  Send :: chan

text \<open>
  \<^verbatim>\<open>sync.RWMutex\<close> is not re-entrant: \<^verbatim>\<open>RLock\<close> waits while a writer holds
  the lock, whoever the writer is. All Hub methods run on the single goroutine of
  \<^verbatim>\<open>Hub.Run\<close>, so a method that waits for a lock this goroutine holds never returns.
\<close>

datatype rwmutex = Unlocked | WriteLocked | ReadLocked nat

text \<open>
  \<^verbatim>\<open>map[*Client]bool\<close> is only ever written with \<^verbatim>\<open>true\<close> and tested for key
  presence, so \<open>clients\<close> is the set of keys. A room's inner map is the list of its
  keys without repetition; \<^verbatim>\<open>range\<close> visits them in the list's order (Go leaves
  the order open).
\<close>

record Hub =
  clients :: "cref set"
  rooms :: "uint \<rightharpoonup> cref list"
  users :: "uint \<rightharpoonup> cref"
  mutex :: rwmutex

definition NewHub :: Hub where
  "NewHub = \<lparr>clients = {}, rooms = Map.empty, users = Map.empty, mutex = Unlocked\<rparr>"

subsection \<open>Store and cache\<close>

text \<open>
  The store holds the live rows (GORM hides soft-deleted ones). \<open>storeUp\<close> is false
  when the database does not answer: then every query returns an error and every
  write is lost, which is how the handlers see it (\<^verbatim>\<open>err != nil\<close>).
\<close>

record Store =
  storeUp :: bool
  userRows :: "uint \<rightharpoonup> User"
  roomRows :: "uint set"
  memberRows :: "RoomMember list"
  messageRows :: "Message list"

text \<open>
  Redis keys \<^verbatim>\<open>user:online:<id>\<close> are indexed by the id. A value is the text stored
  under the key: \<open>None\<close> when it is not the JSON of an object, otherwise the fields
  of the object as they are written, a number being the non-negative integer literal
  that \<^verbatim>\<open>json.Marshal\<close> writes for a \<^verbatim>\<open>uint\<close> or a Unix time.
\<close>

datatype jval = JNum nat | JStr string | JNull

type_synonym jobject = "(string \<times> jval) list"

text \<open>
  What \<^verbatim>\<open>json.Unmarshal\<close> puts into a \<^verbatim>\<open>map[string]interface{}\<close>: a number
  becomes a \<^verbatim>\<open>float64\<close>, here the integer that the double holds.
\<close>

datatype ival = Float64 nat | Text string | Null

record Redis =
  redisUp :: bool
  onlineKeys :: "(uint \<times> jobject option) list"
  roomMessages :: "uint \<Rightarrow> payload list"

record World =
  hub :: Hub
  heap :: "cref \<Rightarrow> Client"
  DB :: Store
  RedisClient :: "Redis option"
  now :: nat
  uintOfBig :: "nat \<Rightarrow> uint"

text \<open>
  \<open>uintOfBig\<close> is what the conversion \<^verbatim>\<open>uint(f)\<close> yields on the platform for a
  \<^verbatim>\<open>float64\<close> of \<open>2^64\<close> or more; Go leaves that value to the implementation.
\<close>

section \<open>Outcomes of Hub code\<close>

datatype panic = SendOnClosedChannel | CloseOfClosedChannel | UnlockOfUnlockedMutex

text \<open>
  A call either returns, panics (which ends the process), or waits forever; in the
  last case the world is the one at the moment the goroutine stops.
\<close>

datatype outcome = Returns World | Panics panic | Blocks World

fun thenDo :: "outcome \<Rightarrow> (World \<Rightarrow> outcome) \<Rightarrow> outcome" where
  "thenDo (Returns w) f = f w"
| "thenDo (Panics p) f = Panics p"
| "thenDo (Blocks w) f = Blocks w"

fun final :: "outcome \<Rightarrow> World option" where
  "final (Returns w) = Some w"
| "final (Panics p) = None"
| "final (Blocks w) = Some w"

definition Lock :: "World \<Rightarrow> outcome" where
  "Lock w = (case mutex (hub w) of
      Unlocked \<Rightarrow> Returns (w\<lparr>hub := (hub w)\<lparr>mutex := WriteLocked\<rparr>\<rparr>)
    | WriteLocked \<Rightarrow> Blocks w
    | ReadLocked n \<Rightarrow> Blocks w)"

definition Unlock :: "World \<Rightarrow> outcome" where
  "Unlock w = (case mutex (hub w) of
      WriteLocked \<Rightarrow> Returns (w\<lparr>hub := (hub w)\<lparr>mutex := Unlocked\<rparr>\<rparr>)
    | Unlocked \<Rightarrow> Panics UnlockOfUnlockedMutex
    | ReadLocked n \<Rightarrow> Panics UnlockOfUnlockedMutex)"

definition RLock :: "World \<Rightarrow> outcome" where
  "RLock w = (case mutex (hub w) of
      Unlocked \<Rightarrow> Returns (w\<lparr>hub := (hub w)\<lparr>mutex := ReadLocked 1\<rparr>\<rparr>)
    | ReadLocked n \<Rightarrow> Returns (w\<lparr>hub := (hub w)\<lparr>mutex := ReadLocked (Suc n)\<rparr>\<rparr>)
    | WriteLocked \<Rightarrow> Blocks w)"

definition RUnlock :: "World \<Rightarrow> outcome" where
  "RUnlock w = (case mutex (hub w) of
      ReadLocked n \<Rightarrow>
        (if n = 0 then Panics UnlockOfUnlockedMutex
         else if n = 1 then Returns (w\<lparr>hub := (hub w)\<lparr>mutex := Unlocked\<rparr>\<rparr>)
         else Returns (w\<lparr>hub := (hub w)\<lparr>mutex := ReadLocked (n - 1)\<rparr>\<rparr>))
    | Unlocked \<Rightarrow> Panics UnlockOfUnlockedMutex
    | WriteLocked \<Rightarrow> Panics UnlockOfUnlockedMutex)"

text \<open>
  \<^verbatim>\<open>select { case ch <- v: default: }\<close>: a closed channel makes the send case ready
  and the send panics; otherwise the value is buffered when there is room, and the
  default branch runs when the buffer is full.
\<close>

datatype send_result = Sent chan | WouldBlock | SendPanics

definition trySend :: "chan \<Rightarrow> WebSocketMessage \<Rightarrow> send_result" where
  "trySend ch v =
     (if closed ch then SendPanics
      else if length (buf ch) < sendCap then Sent (ch\<lparr>buf := buf ch @ [v]\<rparr>)
      else WouldBlock)"

definition closeChan :: "chan \<Rightarrow> chan option" where
  "closeChan ch = (if closed ch then None else Some (ch\<lparr>closed := True\<rparr>))"


section \<open>Store queries\<close>

datatype error = RecordNotFound | StoreError | RedisError | SyntaxError | RangeError

text \<open>\<^verbatim>\<open>DB.First(&user, id)\<close>\<close>

definition firstUser :: "Store \<Rightarrow> uint \<Rightarrow> error + User" where
  "firstUser db userID =
     (if \<not> storeUp db then Inl StoreError
      else case userRows db userID of None \<Rightarrow> Inl RecordNotFound | Some u \<Rightarrow> Inr u)"

text \<open>\<^verbatim>\<open>DB.First(&room, id)\<close>\<close>

definition firstRoom :: "Store \<Rightarrow> uint \<Rightarrow> error + uint" where
  "firstRoom db roomID =
     (if \<not> storeUp db then Inl StoreError
      else if roomID \<in> roomRows db then Inr roomID else Inl RecordNotFound)"

text \<open>\<^verbatim>\<open>DB.Where("room_id = ? AND user_id = ?", r, u).First(&roomMember)\<close>\<close>

definition firstMember :: "Store \<Rightarrow> uint \<Rightarrow> uint \<Rightarrow> error + RoomMember" where
  "firstMember db roomID userID =
     (if \<not> storeUp db then Inl StoreError
      else case filter (\<lambda>m. rmRoomID m = roomID \<and> rmUserID m = userID) (memberRows db) of
             [] \<Rightarrow> Inl RecordNotFound
           | m # ms \<Rightarrow> Inr m)"

text \<open>\<^verbatim>\<open>DB.Where("id IN ?", ids).Find(&users)\<close>: each matching row once.\<close>

definition findUsers :: "Store \<Rightarrow> uint list \<Rightarrow> (uint \<times> User) list" where
  "findUsers db ids =
     (if \<not> storeUp db then []
      else List.map_filter (\<lambda>i. map_option (Pair i) (userRows db i)) (remdups ids))"

text \<open>\<^verbatim>\<open>DB.Model(&models.User{}).Where("id = ?", id).Update(s)\<close>: no row, no change.\<close>

definition updateUser :: "uint \<Rightarrow> (User \<Rightarrow> User) \<Rightarrow> Store \<Rightarrow> Store" where
  "updateUser userID f db =
     (if \<not> storeUp db then db
      else case userRows db userID of
             None \<Rightarrow> db
           | Some u \<Rightarrow> db\<lparr>userRows := (userRows db)(userID \<mapsto> f u)\<rparr>)"

text \<open>\<^verbatim>\<open>DB.Create(&message)\<close>: the store assigns the next id and the creation time.\<close>

definition createMessage :: "nat \<Rightarrow> Message \<Rightarrow> Store \<Rightarrow> error + (Store \<times> Message)" where
  "createMessage t m db =
     (if \<not> storeUp db then Inl StoreError
      else let m' = m\<lparr>msgID := Suc (fold max (map msgID (messageRows db)) 0), msgCreatedAt := t\<rparr>
           in Inr (db\<lparr>messageRows := messageRows db @ [m']\<rparr>, m'))"

text \<open>\<^verbatim>\<open>DB.Create(&roomMember)\<close>, its error ignored by the caller.\<close>

definition createMember :: "RoomMember \<Rightarrow> Store \<Rightarrow> Store" where
  "createMember m db =
     (if \<not> storeUp db then db else db\<lparr>memberRows := memberRows db @ [m]\<rparr>)"

section \<open>Presence cache (internal/services/redis.go)\<close>

text \<open>
  The three writers return an \<^verbatim>\<open>error\<close>; the first component is that error,
  \<open>None\<close> for \<^verbatim>\<open>nil\<close>. A nil \<^verbatim>\<open>RedisClient\<close> makes each of them return
  \<^verbatim>\<open>nil\<close> at once.
\<close>

definition SetUserOnline :: "uint \<Rightarrow> uint \<Rightarrow> World \<Rightarrow> error option \<times> World" where
  "SetUserOnline userID roomID w =
     (case RedisClient w of
        None \<Rightarrow> (None, w)
      | Some rd \<Rightarrow>
          (if \<not> redisUp rd then (Some RedisError, w)
           else let data = [(''user_id'', JNum userID), (''room_id'', JNum roomID),
                            (''timestamp'', JNum (now w))]
                in (None, w\<lparr>RedisClient := Some (rd\<lparr>onlineKeys :=
                      (userID, Some data) # filter (\<lambda>kv. fst kv \<noteq> userID) (onlineKeys rd)\<rparr>)\<rparr>)))"

definition SetUserOffline :: "uint \<Rightarrow> World \<Rightarrow> error option \<times> World" where
  "SetUserOffline userID w =
     (case RedisClient w of
        None \<Rightarrow> (None, w)
      | Some rd \<Rightarrow>
          (if \<not> redisUp rd then (Some RedisError, w)
           else (None, w\<lparr>RedisClient := Some (rd\<lparr>onlineKeys :=
                   filter (\<lambda>kv. fst kv \<noteq> userID) (onlineKeys rd)\<rparr>)\<rparr>)))"

text \<open>
  The double nearest to a non-negative integer, ties to the even mantissa, as
  \<^verbatim>\<open>strconv.ParseFloat\<close> computes it: integers below \<open>2^53\<close> are kept, a larger one
  is cut to 53 significant bits. \<open>scale n\<close> is the number of bits cut off.
\<close>

function scale :: "nat \<Rightarrow> nat" where
  "scale n = (if n < 2 ^ 53 then 0 else Suc (scale (n div 2)))"
  by pat_completeness auto
termination
  by (relation "measure id") auto

declare scale.simps [simp del]

definition roundFloat64 :: "nat \<Rightarrow> nat" where
  "roundFloat64 n =
     (let e = scale n; q = n div 2 ^ e; r = n mod 2 ^ e in
      if e = 0 then n
      else if 2 ^ (e - 1) < r \<or> (r = 2 ^ (e - 1) \<and> odd q) then (q + 1) * 2 ^ e
      else q * 2 ^ e)"

text \<open>
  A literal whose double would be \<open>2^1024\<close> or more is out of range: the decoding of
  the number fails and \<^verbatim>\<open>json.Unmarshal\<close> returns an error.
\<close>

definition unmarshalValue :: "jval \<Rightarrow> ival option" where
  "unmarshalValue v =
     (case v of
        JNum n \<Rightarrow> (if roundFloat64 n < 2 ^ 1024 then Some (Float64 (roundFloat64 n)) else None)
      | JStr s \<Rightarrow> Some (Text s)
      | JNull \<Rightarrow> Some Null)"

text \<open>The fields in the order of the text; a later field replaces an earlier one of its name.\<close>

fun unmarshalFields :: "jobject \<Rightarrow> (string \<rightharpoonup> ival) \<Rightarrow> (string \<rightharpoonup> ival) option" where
  "unmarshalFields [] m = Some m"
| "unmarshalFields ((k, v) # rest) m =
     (case unmarshalValue v of
        None \<Rightarrow> None
      | Some i \<Rightarrow> unmarshalFields rest (m(k \<mapsto> i)))"

definition Unmarshal :: "jobject \<Rightarrow> (string \<rightharpoonup> ival) option" where
  "Unmarshal data = unmarshalFields data Map.empty"

text \<open>The conversion \<^verbatim>\<open>uint(f)\<close> of a \<^verbatim>\<open>float64\<close> that holds an integer.\<close>

definition toUint :: "(nat \<Rightarrow> uint) \<Rightarrow> nat \<Rightarrow> uint" where
  "toUint big f = (if f < 2 ^ 64 then f else big f)"

text \<open>
  The loop of \<^verbatim>\<open>GetOnlineUsers\<close> over the keys matching \<^verbatim>\<open>user:online:*\<close>:
  a key whose \<^verbatim>\<open>Get\<close> fails or whose value does not unmarshal is skipped; a value
  counts when its \<^verbatim>\<open>room_id\<close> is a \<^verbatim>\<open>float64\<close> whose conversion to
  \<^verbatim>\<open>uint\<close> equals the room, and then the conversion of its \<^verbatim>\<open>user_id\<close> is
  appended when that is a \<^verbatim>\<open>float64\<close> too.
\<close>

fun scanOnline ::
  "(nat \<Rightarrow> uint) \<Rightarrow> (uint \<times> jobject option) list \<Rightarrow> uint \<Rightarrow> uint list \<Rightarrow> uint list" where
  "scanOnline big store roomID [] = []"
| "scanOnline big store roomID (key # keys) =
     (case map_of store key of
        None \<Rightarrow> scanOnline big store roomID keys
      | Some None \<Rightarrow> scanOnline big store roomID keys
      | Some (Some data) \<Rightarrow>
          (case Unmarshal data of
             None \<Rightarrow> scanOnline big store roomID keys
           | Some userInfo \<Rightarrow>
               (case userInfo ''room_id'' of
                  Some (Float64 userRoomID) \<Rightarrow>
                    (if toUint big userRoomID = roomID then
                       (case userInfo ''user_id'' of
                          Some (Float64 userID) \<Rightarrow>
                            toUint big userID # scanOnline big store roomID keys
                        | _ \<Rightarrow> scanOnline big store roomID keys)
                     else scanOnline big store roomID keys)
                | _ \<Rightarrow> scanOnline big store roomID keys)))"

definition GetOnlineUsers :: "uint \<Rightarrow> World \<Rightarrow> error + uint list" where
  "GetOnlineUsers roomID w =
     (case RedisClient w of
        None \<Rightarrow> Inr []
      | Some rd \<Rightarrow>
          (if \<not> redisUp rd then Inl RedisError
           else Inr (scanOnline (uintOfBig w) (onlineKeys rd) roomID (map fst (onlineKeys rd)))))"

text \<open>\<^verbatim>\<open>CacheMessage\<close>: push at the head, keep the first 100.\<close>

definition CacheMessage :: "uint \<Rightarrow> payload \<Rightarrow> World \<Rightarrow> error option \<times> World" where
  "CacheMessage roomID message w =
     (case RedisClient w of
        None \<Rightarrow> (None, w)
      | Some rd \<Rightarrow>
          (if \<not> redisUp rd then (Some RedisError, w)
           else (None, w\<lparr>RedisClient := Some (rd\<lparr>roomMessages :=
                   (roomMessages rd)(roomID := take 100 (message # roomMessages rd roomID))\<rparr>)\<rparr>)))"


section \<open>The Hub (internal/services/hub.go)\<close>

text \<open>\<^verbatim>\<open>room[client] = true\<close> and \<^verbatim>\<open>delete(room, client)\<close> on a key list.\<close>

definition mapSet :: "cref \<Rightarrow> cref list \<Rightarrow> cref list" where
  "mapSet client room = (if client \<in> set room then room else room @ [client])"

definition mapDelete :: "cref \<Rightarrow> cref list \<Rightarrow> cref list" where
  "mapDelete client room = removeAll client room"

definition setSend :: "cref \<Rightarrow> chan \<Rightarrow> World \<Rightarrow> World" where
  "setSend client ch w = w\<lparr>heap := (heap w)(client := (heap w client)\<lparr>Send := ch\<rparr>)\<rparr>"

text \<open>
  The body of the \<^verbatim>\<open>default\<close> branch in \<^verbatim>\<open>broadcastToRoom\<close>:
  \<^verbatim>\<open>close(client.Send); delete(h.clients, client); delete(room, client)\<close>, where
  \<^verbatim>\<open>room\<close> is the inner map stored under \<^verbatim>\<open>h.rooms[roomID]\<close>.
\<close>

definition evict :: "uint \<Rightarrow> cref \<Rightarrow> World \<Rightarrow> outcome" where
  "evict roomID client w =
     (case closeChan (Send (heap w client)) of
        None \<Rightarrow> Panics CloseOfClosedChannel
      | Some ch \<Rightarrow>
          (let w1 = setSend client ch w;
               h1 = (hub w1)\<lparr>clients := clients (hub w1) - {client}\<rparr>;
               h2 = (case rooms h1 roomID of
                       None \<Rightarrow> h1
                     | Some room \<Rightarrow> h1\<lparr>rooms := (rooms h1)(roomID \<mapsto> mapDelete client room)\<rparr>)
           in Returns (w1\<lparr>hub := h2\<rparr>)))"

text \<open>The loop \<^verbatim>\<open>for client := range room\<close> of \<^verbatim>\<open>broadcastToRoom\<close>.\<close>

fun fanout :: "uint \<Rightarrow> WebSocketMessage \<Rightarrow> cref list \<Rightarrow> World \<Rightarrow> outcome" where
  "fanout roomID jsonData [] w = Returns w"
| "fanout roomID jsonData (client # rest) w =
     (case trySend (Send (heap w client)) jsonData of
        Sent ch \<Rightarrow> fanout roomID jsonData rest (setSend client ch w)
      | WouldBlock \<Rightarrow> thenDo (evict roomID client w) (fanout roomID jsonData rest)
      | SendPanics \<Rightarrow> Panics SendOnClosedChannel)"

definition broadcastToRoom :: "uint \<Rightarrow> WebSocketMessage \<Rightarrow> World \<Rightarrow> outcome" where
  "broadcastToRoom roomID message w0 =
     thenDo (RLock w0) (\<lambda>w.
       thenDo (case rooms (hub w) roomID of
                 None \<Rightarrow> Returns w
               | Some room \<Rightarrow> fanout roomID message room w)
              RUnlock)"

definition notifyUserJoined :: "cref \<Rightarrow> World \<Rightarrow> outcome" where
  "notifyUserJoined client w =
     (let cl = heap w client in
      case firstUser (DB w) (UserID cl) of
        Inl err \<Rightarrow> Returns w
      | Inr user \<Rightarrow>
          broadcastToRoom (RoomID cl)
            \<lparr>wsType = ''user_joined'', wsRoomID = RoomID cl, wsContent = [],
             wsData = UserJoinedData (UserID cl) user\<rparr> w)"

definition notifyUserLeft :: "cref \<Rightarrow> World \<Rightarrow> outcome" where
  "notifyUserLeft client w =
     (let cl = heap w client in
      broadcastToRoom (RoomID cl)
        \<lparr>wsType = ''user_left'', wsRoomID = RoomID cl, wsContent = [],
         wsData = UserLeftData (UserID cl)\<rparr> w)"

definition sendOnlineUsers :: "cref \<Rightarrow> World \<Rightarrow> outcome" where
  "sendOnlineUsers client w =
     (let cl = heap w client in
      case GetOnlineUsers (RoomID cl) w of
        Inl err \<Rightarrow> Returns w
      | Inr onlineUsers \<Rightarrow>
          (let userList = (if 0 < length onlineUsers then findUsers (DB w) onlineUsers else []);
               message = \<lparr>wsType = ''online_users'', wsRoomID = RoomID cl, wsContent = [],
                          wsData = OnlineUsersData userList\<rparr>
           in case trySend (Send cl) message of
                Sent ch \<Rightarrow> Returns (setSend client ch w)
              | WouldBlock \<Rightarrow>
                  (case closeChan (Send cl) of
                     None \<Rightarrow> Panics CloseOfClosedChannel
                   | Some ch \<Rightarrow> Returns (setSend client ch w))
              | SendPanics \<Rightarrow> Panics SendOnClosedChannel))"

text \<open>
  \<^verbatim>\<open>registerClient\<close> between \<^verbatim>\<open>h.mutex.Lock()\<close> and the deferred
  \<^verbatim>\<open>h.mutex.Unlock()\<close>. The write lock is held while \<^verbatim>\<open>notifyUserJoined\<close>
  runs; when that reaches \<^verbatim>\<open>broadcastToRoom\<close>, the \<^verbatim>\<open>RLock\<close> there waits for
  the write lock of its own caller. The same holds for \<^verbatim>\<open>unregisterClient\<close> and
  \<^verbatim>\<open>notifyUserLeft\<close>. \<^verbatim>\<open>sendOnlineUsers\<close> takes no lock.
\<close>

definition registerBody :: "cref \<Rightarrow> World \<Rightarrow> outcome" where
  "registerBody client w =
     (let cl = heap w client;
          h = hub w;
          h1 = h\<lparr>clients := insert client (clients h)\<rparr>;
          room = (case rooms h1 (RoomID cl) of None \<Rightarrow> [] | Some r \<Rightarrow> r);
          h2 = h1\<lparr>rooms := (rooms h1)(RoomID cl \<mapsto> mapSet client room)\<rparr>;
          h3 = h2\<lparr>users := (users h2)(UserID cl \<mapsto> client)\<rparr>;
          w1 = w\<lparr>hub := h3\<rparr>;
          w2 = snd (SetUserOnline (UserID cl) (RoomID cl) w1);
          w3 = w2\<lparr>DB := updateUser (UserID cl) (\<lambda>u. u\<lparr>IsOnline := True\<rparr>) (DB w2)\<rparr>
      in thenDo (notifyUserJoined client w3) (sendOnlineUsers client))"

definition registerClient :: "cref \<Rightarrow> World \<Rightarrow> outcome" where
  "registerClient client w0 =
     thenDo (Lock w0) (\<lambda>w. thenDo (registerBody client w) Unlock)"

definition unregisterBody :: "cref \<Rightarrow> World \<Rightarrow> outcome" where
  "unregisterBody client w =
     (if client \<in> clients (hub w) then
        (let cl = heap w client;
             h = hub w;
             h1 = h\<lparr>clients := clients h - {client}\<rparr>;
             h2 = (case rooms h1 (RoomID cl) of
                     None \<Rightarrow> h1
                   | Some room \<Rightarrow>
                       (let room' = mapDelete client room in
                        if length room' = 0 then h1\<lparr>rooms := (rooms h1)(RoomID cl := None)\<rparr>
                        else h1\<lparr>rooms := (rooms h1)(RoomID cl \<mapsto> room')\<rparr>));
             h3 = h2\<lparr>users := (users h2)(UserID cl := None)\<rparr>
         in case closeChan (Send cl) of
              None \<Rightarrow> Panics CloseOfClosedChannel
            | Some ch \<Rightarrow>
                (let w1 = setSend client ch (w\<lparr>hub := h3\<rparr>);
                     w2 = snd (SetUserOffline (UserID cl) w1);
                     w3 = w2\<lparr>DB := updateUser (UserID cl)
                                  (\<lambda>u. u\<lparr>IsOnline := False, LastSeen := Some (now w2)\<rparr>) (DB w2)\<rparr>
                 in notifyUserLeft client w3))
      else Returns w)"

definition unregisterClient :: "cref \<Rightarrow> World \<Rightarrow> outcome" where
  "unregisterClient client w0 =
     thenDo (Lock w0) (\<lambda>w. thenDo (unregisterBody client w) Unlock)"

text \<open>
  \<^verbatim>\<open>Hub.Run\<close> takes one command at a time from its three unbuffered channels and
  calls the method for it. \<^verbatim>\<open>RegisterClient\<close>, \<^verbatim>\<open>UnregisterClient\<close> and
  \<^verbatim>\<open>BroadcastMessage\<close> put a command on a channel; the sender goes on once
  \<^verbatim>\<open>Run\<close> has taken it. In the sequential model the command is run at once.
\<close>

datatype command = Register cref | Unregister cref | Broadcast uint WebSocketMessage

fun Run_step :: "command \<Rightarrow> World \<Rightarrow> outcome" where
  "Run_step (Register client) w = registerClient client w"
| "Run_step (Unregister client) w = unregisterClient client w"
| "Run_step (Broadcast roomID message) w = broadcastToRoom roomID message w"

fun Run :: "command list \<Rightarrow> World \<Rightarrow> outcome" where
  "Run [] w = Returns w"
| "Run (cmd # cmds) w = thenDo (Run_step cmd w) (Run cmds)"

definition RegisterClient :: "cref \<Rightarrow> World \<Rightarrow> outcome" where
  "RegisterClient client w = Run_step (Register client) w"

definition UnregisterClient :: "cref \<Rightarrow> World \<Rightarrow> outcome" where
  "UnregisterClient client w = Run_step (Unregister client) w"

definition BroadcastMessage :: "uint \<Rightarrow> WebSocketMessage \<Rightarrow> World \<Rightarrow> outcome" where
  "BroadcastMessage roomID message w = Run_step (Broadcast roomID message) w"


section \<open>Inbound frames (package websocket)\<close>

text \<open>
  \<^verbatim>\<open>handleChatMessage\<close>: the membership lookup, the insert, the reload with the
  author, the cache push and the broadcast command, in the source's order. The
  frame's content is copied into the record as it arrived.
\<close>

definition handleChatMessage :: "cref \<Rightarrow> WebSocketMessage \<Rightarrow> World \<Rightarrow> outcome" where
  "handleChatMessage client wsMessage w =
     (let cl = heap w client in
      case firstMember (DB w) (RoomID cl) (UserID cl) of
        Inl err \<Rightarrow> Returns w
      | Inr roomMember \<Rightarrow>
          (let message = \<lparr>msgID = 0, msgRoomID = RoomID cl, msgUserID = UserID cl,
                          msgType = MessageTypeText, msgContent = wsContent wsMessage,
                          msgCreatedAt = 0\<rparr>
           in case createMessage (now w) message (DB w) of
                Inl err \<Rightarrow> Returns w
              | Inr (db', message') \<Rightarrow>
                  (let w1 = w\<lparr>DB := db'\<rparr>;
                       author = (case firstUser (DB w1) (msgUserID message') of
                                   Inl err \<Rightarrow> None | Inr u \<Rightarrow> Some u);
                       json = ChatData message' author;
                       w2 = snd (CacheMessage (RoomID cl) json w1)
                   in BroadcastMessage (RoomID cl)
                        \<lparr>wsType = ''message'', wsRoomID = RoomID cl, wsContent = [],
                         wsData = json\<rparr> w2)))"

text \<open>
  \<^verbatim>\<open>handleJoinRoom\<close> talks to the store and the cache and writes the client's
  \<^verbatim>\<open>RoomID\<close> field; it sends nothing to the Hub.
\<close>

definition handleJoinRoom :: "cref \<Rightarrow> WebSocketMessage \<Rightarrow> World \<Rightarrow> World" where
  "handleJoinRoom client wsMessage w =
     (if wsRoomID wsMessage = 0 then w
      else case firstRoom (DB w) (wsRoomID wsMessage) of
        Inl err \<Rightarrow> w
      | Inr room \<Rightarrow>
          (let cl = heap w client;
               w1 = (case firstMember (DB w) (wsRoomID wsMessage) (UserID cl) of
                       Inl err \<Rightarrow>
                         w\<lparr>DB := createMember
                             \<lparr>rmRoomID = wsRoomID wsMessage, rmUserID = UserID cl,
                              rmRole = ''member'', rmJoinedAt = now w\<rparr> (DB w)\<rparr>
                     | Inr roomMember \<Rightarrow> w);
               w2 = w1\<lparr>heap := (heap w1)(client := cl\<lparr>RoomID := wsRoomID wsMessage\<rparr>)\<rparr>
           in snd (SetUserOnline (UserID cl) (RoomID (heap w2 client)) w2)))"

definition handleLeaveRoom :: "cref \<Rightarrow> WebSocketMessage \<Rightarrow> World \<Rightarrow> outcome" where
  "handleLeaveRoom client wsMessage w =
     UnregisterClient client (snd (SetUserOffline (UserID (heap w client)) w))"

definition handleMessage :: "cref \<Rightarrow> WebSocketMessage \<Rightarrow> World \<Rightarrow> outcome" where
  "handleMessage client wsMessage w =
     (if wsType wsMessage = ''message'' then handleChatMessage client wsMessage w
      else if wsType wsMessage = ''join_room'' then Returns (handleJoinRoom client wsMessage w)
      else if wsType wsMessage = ''leave_room'' then handleLeaveRoom client wsMessage w
      else Returns w)"

section \<open>The attach endpoint (package handlers)\<close>

text \<open>
  \<^verbatim>\<open>strconv.ParseUint(s, 10, 32)\<close> of the Go library: the empty string and any byte
  that is not a decimal digit give a syntax error; a value above \<open>2^32 - 1\<close> gives a
  range error. The accumulator is a \<^verbatim>\<open>uint64\<close>; \<open>cutoff\<close> is the least \<open>n\<close>
  with \<open>n * 10\<close> beyond it.
\<close>

definition maxUint64 :: nat where
  "maxUint64 = 2 ^ 64 - 1"

definition cutoff :: nat where
  "cutoff = maxUint64 div 10 + 1"

definition maxVal :: nat where
  "maxVal = 2 ^ 32 - 1"

fun parseDigits :: "nat \<Rightarrow> string \<Rightarrow> error + nat" where
  "parseDigits n [] = Inr n"
| "parseDigits n (c # cs) =
     (if 48 \<le> (of_char c :: nat) \<and> (of_char c :: nat) \<le> 57 then
        (let d = (of_char c :: nat) - 48 in
         if cutoff \<le> n then Inl RangeError
         else let n10 = (n * 10) mod 2 ^ 64;
                  n1 = (n10 + d) mod 2 ^ 64
              in if n1 < n10 \<or> maxVal < n1 then Inl RangeError
                 else parseDigits n1 cs)
      else Inl SyntaxError)"

definition ParseUint :: "string \<Rightarrow> error + nat" where
  "ParseUint s = (if s = [] then Inl SyntaxError else parseDigits 0 s)"

text \<open>
  What one request brings: the user id the authentication middleware left in the
  context (if any), the \<^verbatim>\<open>room_id\<close> query parameter (if any), whether the
  websocket upgrade succeeds, the fresh UUID and the address of the new
  \<^verbatim>\<open>Client\<close>.
\<close>

record request =
  currentUserID :: "uint option"
  queryRoomID :: "string option"
  upgradeSucceeds :: bool
  newUUID :: string
  newClient :: cref

datatype response = StatusUnauthorized | StatusBadRequest | UpgradeFailed | Upgraded

text \<open>\<^verbatim>\<open>c.Query("room_id")\<close> is the empty string when the parameter is absent.\<close>

definition Query :: "request \<Rightarrow> string" where
  "Query req = (case queryRoomID req of None \<Rightarrow> [] | Some s \<Rightarrow> s)"

definition HandleWebSocket :: "request \<Rightarrow> World \<Rightarrow> response \<times> outcome" where
  "HandleWebSocket req w =
     (case currentUserID req of
        None \<Rightarrow> (StatusUnauthorized, Returns w)
      | Some userID \<Rightarrow>
          (let roomIDStr = (if Query req = [] then ''1'' else Query req) in
           case ParseUint roomIDStr of
             Inl err \<Rightarrow> (StatusBadRequest, Returns w)
           | Inr roomID \<Rightarrow>
               (if \<not> upgradeSucceeds req then (UpgradeFailed, Returns w)
                else let client = \<lparr>ID = newUUID req, UserID = userID, RoomID = roomID,
                                   Send = \<lparr>closed = False, buf = []\<rparr>\<rparr>;
                         w1 = w\<lparr>heap := (heap w)(newClient req := client)\<rparr>
                     in (Upgraded, RegisterClient (newClient req) w1))))"


section \<open>Membership (internal/models/room.go)\<close>

text \<open>
  \<^verbatim>\<open>Room.IsMember\<close> counts the rows of the pair; a failed count leaves the counter
  at zero.
\<close>

definition IsMember :: "Store \<Rightarrow> uint \<Rightarrow> uint \<Rightarrow> bool" where
  "IsMember db roomID userID =
     (storeUp db \<and>
      0 < length (filter (\<lambda>m. rmRoomID m = roomID \<and> rmUserID m = userID) (memberRows db)))"

section \<open>Notions used in the statements\<close>

text \<open>Decimal numerals, for what \<^verbatim>\<open>ParseUint\<close> accepts.\<close>

definition isDigit :: "char \<Rightarrow> bool" where
  "isDigit c = (48 \<le> (of_char c :: nat) \<and> (of_char c :: nat) \<le> 57)"

fun decimal :: "nat \<Rightarrow> string \<Rightarrow> nat" where
  "decimal n [] = n"
| "decimal n (c # cs) = decimal (n * 10 + ((of_char c :: nat) - 48)) cs"

text \<open>The world in which \<^verbatim>\<open>HandleWebSocket\<close> issues its register command.\<close>

definition attached :: "request \<Rightarrow> uint \<Rightarrow> uint \<Rightarrow> World \<Rightarrow> World" where
  "attached req userID roomID w =
     w\<lparr>heap := (heap w)(newClient req :=
          \<lparr>ID = newUUID req, UserID = userID, RoomID = roomID,
           Send = \<lparr>closed = False, buf = []\<rparr>\<rparr>)\<rparr>"

text \<open>
  The users a cache holds for a room: those named by the \<^verbatim>\<open>user_id\<close> of a stored
  presence entry whose \<^verbatim>\<open>room_id\<close> is the room, both as they are written in the
  entry (the last field of a name counts).
\<close>

definition presenceIn :: "Redis \<Rightarrow> uint \<Rightarrow> uint set" where
  "presenceIn rd roomID =
     {u. \<exists>k info. map_of (onlineKeys rd) k = Some (Some info) \<and>
           map_of (rev info) ''room_id'' = Some (JNum roomID) \<and>
           map_of (rev info) ''user_id'' = Some (JNum u)}"

text \<open>
  The users \<^verbatim>\<open>GetOnlineUsers\<close> reads out of a cache for a room: the ids are the
  conversions of the doubles that the entries decode to.
\<close>

definition listedIn :: "(nat \<Rightarrow> uint) \<Rightarrow> Redis \<Rightarrow> uint \<Rightarrow> uint set" where
  "listedIn big rd roomID =
     {toUint big fu |fu k info m fr.
        map_of (onlineKeys rd) k = Some (Some info) \<and> Unmarshal info = Some m \<and>
        m ''room_id'' = Some (Float64 fr) \<and> toUint big fr = roomID \<and>
        m ''user_id'' = Some (Float64 fu)}"

text \<open>Every number written in a presence entry of the cache is below \<open>2^53\<close>.\<close>

definition smallNumbers :: "Redis \<Rightarrow> bool" where
  "smallNumbers rd =
     (\<forall>k info name n. map_of (onlineKeys rd) k = Some (Some info) \<and> (name, JNum n) \<in> set info
        \<longrightarrow> n < 2 ^ 53)"

section \<open>Scenarios\<close>

text \<open>
  Concrete states for the scenarios of the specification. Client 0 belongs to user 1
  and is attached to room 1; client 1 is a second attach of user 1, to room 2; client 2
  belongs to user 3, who is a member of no room, and is attached to room 1. Rooms 1
  and 2 exist, and user 1 is a member of both.
\<close>

definition openQueue :: chan where
  "openQueue = \<lparr>closed = False, buf = []\<rparr>"

definition heap0 :: "cref \<Rightarrow> Client" where
  "heap0 =
     (\<lambda>c. \<lparr>ID = [], UserID = 0, RoomID = 0, Send = openQueue\<rparr>)
       (0 := \<lparr>ID = ''a'', UserID = 1, RoomID = 1, Send = openQueue\<rparr>,
        1 := \<lparr>ID = ''b'', UserID = 1, RoomID = 2, Send = openQueue\<rparr>,
        2 := \<lparr>ID = ''c'', UserID = 3, RoomID = 1, Send = openQueue\<rparr>)"

definition members0 :: "RoomMember list" where
  "members0 =
     [\<lparr>rmRoomID = 1, rmUserID = 1, rmRole = ''member'', rmJoinedAt = 0\<rparr>,
      \<lparr>rmRoomID = 2, rmUserID = 1, rmRole = ''member'', rmJoinedAt = 0\<rparr>]"

text \<open>
  A store without user rows: \<^verbatim>\<open>DB.First(&user, id)\<close> finds nothing, so
  \<^verbatim>\<open>notifyUserJoined\<close> returns before it broadcasts and a registration runs to
  its end.
\<close>

definition store0 :: Store where
  "store0 = \<lparr>storeUp = True, userRows = Map.empty, roomRows = {1, 2},
             memberRows = members0, messageRows = []\<rparr>"

definition world0 :: World where
  "world0 = \<lparr>hub = NewHub, heap = heap0, DB = store0, RedisClient = None, now = 0,
              uintOfBig = (\<lambda>f. 0)\<rparr>"

definition frame :: "string \<Rightarrow> uint \<Rightarrow> string \<Rightarrow> WebSocketMessage" where
  "frame t r c = \<lparr>wsType = t, wsRoomID = r, wsContent = c, wsData = NoData\<rparr>"

text \<open>Attach requests of user 4 for a fresh client at address 5.\<close>

definition attachRequest :: "string option \<Rightarrow> request" where
  "attachRequest q = \<lparr>currentUserID = Some 4, queryRoomID = q, upgradeSucceeds = True,
                      newUUID = ''e'', newClient = 5\<rparr>"

text \<open>A cache in which user 1 was set online in room 1 and user 3 in room 2.\<close>

definition emptyRedis :: Redis where
  "emptyRedis = \<lparr>redisUp = True, onlineKeys = [], roomMessages = (\<lambda>r. [])\<rparr>"

definition cachedWorld :: World where
  "cachedWorld =
     snd (SetUserOnline 3 2 (snd (SetUserOnline 1 1 (world0\<lparr>RedisClient := Some emptyRedis\<rparr>))))"

text \<open>
  The registry after clients 0 and 2 have registered from \<open>world0\<close> and their writers
  have drained the queues; the same with the queue of client 2 full.
\<close>

definition chatRoom :: World where
  "chatRoom =
     \<lparr>hub = \<lparr>clients = {0, 2}, rooms = [1 \<mapsto> [0, 2]], users = [1 \<mapsto> 0, 3 \<mapsto> 2],
             mutex = Unlocked\<rparr>,
      heap = heap0, DB = store0, RedisClient = None, now = 0, uintOfBig = (\<lambda>f. 0)\<rparr>"

definition fullQueue :: chan where
  "fullQueue = \<lparr>closed = False, buf = replicate 256 (frame ''message'' 1 [])\<rparr>"

definition slowRoom :: World where
  "slowRoom = chatRoom\<lparr>heap := heap0(2 := (heap0 2)\<lparr>Send := fullQueue\<rparr>)\<rparr>"

text \<open>The same registry with the row of user 1 in the store and an empty cache.\<close>

definition alice :: User where
  "alice = \<lparr>Username = ''alice'', Email = ''alice@example.org'', Nickname = ''alice'',
            Avatar = [], IsOnline = True, LastSeen = None\<rparr>"

definition memberChat :: World where
  "memberChat =
     chatRoom\<lparr>DB := store0\<lparr>userRows := [1 \<mapsto> alice]\<rparr>, RedisClient := Some emptyRedis\<rparr>"

text \<open>The same while the Hub waits inside a registration, the write lock held.\<close>

definition blockedChat :: World where
  "blockedChat = memberChat\<lparr>hub := (hub memberChat)\<lparr>mutex := WriteLocked\<rparr>\<rparr>"

section \<open>Registry invariants\<close>

text \<open>
  I1 of the specification, in its two halves: every registered client is in the room
  set of its current \<^verbatim>\<open>RoomID\<close>, and the user index of its \<^verbatim>\<open>UserID\<close> points
  back at it.
\<close>

definition roomIndexed :: "World \<Rightarrow> bool" where
  "roomIndexed w =
     (\<forall>c \<in> clients (hub w). \<exists>room. rooms (hub w) (RoomID (heap w c)) = Some room \<and> c \<in> set room)"

definition userIndexed :: "World \<Rightarrow> bool" where
  "userIndexed w = (\<forall>c \<in> clients (hub w). users (hub w) (UserID (heap w c)) = Some c)"

text \<open>
  The states the Hub reaches through its own commands. With \<open>dup\<close> false, a register
  command is only taken for a client whose user has no other registered client. The
  rest of the program may change anything but the registry and the ids of registered
  clients; \<^verbatim>\<open>handleJoinRoom\<close>, which rewrites the \<^verbatim>\<open>RoomID\<close> of a registered client,
  is therefore not among the steps.
\<close>

definition admissible :: "bool \<Rightarrow> command \<Rightarrow> World \<Rightarrow> bool" where
  "admissible dup cmd w =
     (case cmd of
        Register c \<Rightarrow>
          dup \<or> (\<forall>c' \<in> clients (hub w). UserID (heap w c') = UserID (heap w c) \<longrightarrow> c' = c)
      | Unregister c \<Rightarrow> True
      | Broadcast r m \<Rightarrow> True)"

definition environment :: "World \<Rightarrow> World \<Rightarrow> bool" where
  "environment w w' =
     (hub w' = hub w \<and>
      (\<forall>c \<in> clients (hub w). UserID (heap w' c) = UserID (heap w c) \<and>
                               RoomID (heap w' c) = RoomID (heap w c)))"

inductive reachable :: "bool \<Rightarrow> World \<Rightarrow> bool" for dup :: bool where
  start: "hub w = NewHub \<Longrightarrow> reachable dup w"
| command: "reachable dup w \<Longrightarrow> admissible dup cmd w \<Longrightarrow> final (Run_step cmd w) = Some w' \<Longrightarrow>
            reachable dup w'"
| outside: "reachable dup w \<Longrightarrow> environment w w' \<Longrightarrow> reachable dup w'"

section \<open>Auxiliary notions for the proofs\<close>

text \<open>
  A step \<open>shrinks\<close> the registry when it registers nobody, leaves the user index and
  the ids alone, and keeps every client that stays registered in the room sets it was in.
\<close>

definition shrinks :: "World \<Rightarrow> World \<Rightarrow> bool" where
  "shrinks w w' =
     (clients (hub w') \<subseteq> clients (hub w) \<and> users (hub w') = users (hub w) \<and>
      (\<forall>c. UserID (heap w' c) = UserID (heap w c) \<and> RoomID (heap w' c) = RoomID (heap w c)) \<and>
      (\<forall>r room c. rooms (hub w) r = Some room \<and> c \<in> set room \<and> c \<in> clients (hub w') \<longrightarrow>
          (\<exists>room'. rooms (hub w') r = Some room' \<and> c \<in> set room')))"

text \<open>The world of \<^verbatim>\<open>registerClient\<close> just before \<^verbatim>\<open>notifyUserJoined\<close>.\<close>

definition installed :: "cref \<Rightarrow> World \<Rightarrow> World" where
  "installed client w =
     (let cl = heap w client;
          h = hub w;
          h1 = h\<lparr>clients := insert client (clients h)\<rparr>;
          room = (case rooms h1 (RoomID cl) of None \<Rightarrow> [] | Some r \<Rightarrow> r);
          h2 = h1\<lparr>rooms := (rooms h1)(RoomID cl \<mapsto> mapSet client room)\<rparr>;
          h3 = h2\<lparr>users := (users h2)(UserID cl \<mapsto> client)\<rparr>;
          w1 = w\<lparr>hub := h3\<rparr>;
          w2 = snd (SetUserOnline (UserID cl) (RoomID cl) w1)
      in w2\<lparr>DB := updateUser (UserID cl) (\<lambda>u. u\<lparr>IsOnline := True\<rparr>) (DB w2)\<rparr>)"

text \<open>The world of \<^verbatim>\<open>unregisterClient\<close> just before \<^verbatim>\<open>notifyUserLeft\<close>.\<close>

definition removed :: "cref \<Rightarrow> chan \<Rightarrow> World \<Rightarrow> World" where
  "removed client ch w =
     (let cl = heap w client;
          h = hub w;
          h1 = h\<lparr>clients := clients h - {client}\<rparr>;
          h2 = (case rooms h1 (RoomID cl) of
                  None \<Rightarrow> h1
                | Some room \<Rightarrow>
                    (let room' = mapDelete client room in
                     if length room' = 0 then h1\<lparr>rooms := (rooms h1)(RoomID cl := None)\<rparr>
                     else h1\<lparr>rooms := (rooms h1)(RoomID cl \<mapsto> room')\<rparr>));
          h3 = h2\<lparr>users := (users h2)(UserID cl := None)\<rparr>;
          w1 = setSend client ch (w\<lparr>hub := h3\<rparr>);
          w2 = snd (SetUserOffline (UserID cl) w1)
      in w2\<lparr>DB := updateUser (UserID cl)
                 (\<lambda>u. u\<lparr>IsOnline := False, LastSeen := Some (now w2)\<rparr>) (DB w2)\<rparr>)"

text \<open>A room whose only member has \<open>n\<close> frames waiting on an open queue.\<close>

definition filling :: "uint \<Rightarrow> cref \<Rightarrow> nat \<Rightarrow> World \<Rightarrow> bool" where
  "filling r c n w =
     (mutex (hub w) = Unlocked \<and> clients (hub w) = {c} \<and> rooms (hub w) r = Some [c] \<and>
      \<not> closed (Send (heap w c)) \<and> length (buf (Send (heap w c))) = n)"

text \<open>
  The fan-out loop in closed form, for a set \<open>S\<close> of recipients with open queues: a
  recipient with space gets the frame; one without has its queue closed and is deleted
  from \<open>clients\<close> and from the room's set.
\<close>

definition hasRoom :: "World \<Rightarrow> cref \<Rightarrow> bool" where
  "hasRoom w c = (length (buf (Send (heap w c))) < sendCap)"

definition delivered :: "uint \<Rightarrow> WebSocketMessage \<Rightarrow> cref set \<Rightarrow> World \<Rightarrow> World" where
  "delivered r f S w =
     w\<lparr>heap := (\<lambda>c. if c \<in> S then
                       (if hasRoom w c
                        then (heap w c)\<lparr>Send := (Send (heap w c))\<lparr>buf := buf (Send (heap w c)) @ [f]\<rparr>\<rparr>
                        else (heap w c)\<lparr>Send := (Send (heap w c))\<lparr>closed := True\<rparr>\<rparr>)
                     else heap w c),
       hub := (hub w)\<lparr>clients := clients (hub w) - {c \<in> S. \<not> hasRoom w c},
                      rooms := (case rooms (hub w) r of
                                  None \<Rightarrow> rooms (hub w)
                                | Some stored \<Rightarrow>
                                    (rooms (hub w))(r \<mapsto> filter (\<lambda>c. \<not> (c \<in> S \<and> \<not> hasRoom w c)) stored))\<rparr>\<rparr>"


text \<open>The decoding of a value whose number, if it is one, is below \<open>2^53\<close>.\<close>

definition exact :: "jval \<Rightarrow> ival" where
  "exact v = (case v of JNum n \<Rightarrow> Float64 n | JStr s \<Rightarrow> Text s | JNull \<Rightarrow> Null)"

text \<open>A cache in which user 7 was set online in room \<open>2^53 + 1\<close>.\<close>

definition bigRoomWorld :: World where
  "bigRoomWorld = snd (SetUserOnline 7 9007199254740993 (world0\<lparr>RedisClient := Some emptyRedis\<rparr>))"

section \<open>Properties\<close>

subsection \<open>Frames that are dropped\<close>

text \<open>
  Claim C9. A \<^verbatim>\<open>join_room\<close> frame whose room id is 0, or names a room that the
  store does not hold, leaves everything as it was: the client's \<^verbatim>\<open>RoomID\<close>, the
  membership rows and the presence cache.
\<close>

theorem handleJoinRoom_rejected:
  "wsRoomID m = 0 \<or> wsRoomID m \<notin> roomRows (DB w) \<Longrightarrow> handleJoinRoom c m w = w"
  by (auto simp: handleJoinRoom_def firstRoom_def)

theorem handleJoinRoom_rejected_witness:
  "handleJoinRoom 0 (frame ''join_room'' 0 []) world0 = world0 \<and>
   handleJoinRoom 0 (frame ''join_room'' 9 []) world0 = world0"
proof -
  have a: "wsRoomID (frame ''join_room'' 0 []) = 0 \<or>
           wsRoomID (frame ''join_room'' 0 []) \<notin> roomRows (DB world0)"
    by (simp add: frame_def)
  have b: "wsRoomID (frame ''join_room'' 9 []) = 0 \<or>
           wsRoomID (frame ''join_room'' 9 []) \<notin> roomRows (DB world0)"
    by (simp add: frame_def world0_def store0_def)
  show ?thesis
    using handleJoinRoom_rejected [OF a] handleJoinRoom_rejected [OF b] by simp
qed

text \<open>
  Claim C7. A \<^verbatim>\<open>message\<close> frame from a client whose user is not a member of the
  client's room returns at the membership lookup with the world unchanged: no message
  row, no cache entry, no frame on any queue, and the registry and the sender's queue
  as they were.
\<close>

theorem handleChatMessage_non_member:
  "\<not> IsMember (DB w) (RoomID (heap w c)) (UserID (heap w c)) \<Longrightarrow>
     handleChatMessage c m w = Returns w"
  by (auto simp: handleChatMessage_def firstMember_def IsMember_def Let_def split: list.splits)

theorem handleChatMessage_non_member_witness:
  "\<not> IsMember (DB world0) (RoomID (heap world0 2)) (UserID (heap world0 2)) \<and>
   handleChatMessage 2 (frame ''message'' 1 ''x'') world0 = Returns world0"
proof -
  have a: "\<not> IsMember (DB world0) (RoomID (heap world0 2)) (UserID (heap world0 2))"
    by (simp add: IsMember_def world0_def store0_def members0_def heap0_def)
  show ?thesis
    using a handleChatMessage_non_member [OF a] by simp
qed

subsection \<open>The presence listing\<close>

lemma scale_small: "n < 2 ^ 53 \<Longrightarrow> scale n = 0"
  by (simp add: scale.simps)

lemma roundFloat64_small: "n < 2 ^ 53 \<Longrightarrow> roundFloat64 n = n"
  by (simp add: roundFloat64_def scale_small)

lemma toUint_small: "n < 2 ^ 53 \<Longrightarrow> toUint big n = n"
  by (simp add: toUint_def)

lemma unmarshalValue_small:
  "(\<And>n. v = JNum n \<Longrightarrow> n < 2 ^ 53) \<Longrightarrow> unmarshalValue v = Some (exact v)"
  by (cases v) (simp_all add: unmarshalValue_def exact_def roundFloat64_small)

lemma unmarshalFields_small:
  "(\<And>name n. (name, JNum n) \<in> set info \<Longrightarrow> n < 2 ^ 53) \<Longrightarrow>
     unmarshalFields info m =
       Some (\<lambda>name. case map_of (rev info) name of None \<Rightarrow> m name | Some v \<Rightarrow> Some (exact v))"
proof (induction info arbitrary: m)
  case Nil
  then show ?case by simp
next
  case (Cons kv info)
  obtain k v where kv: "kv = (k, v)" by (cases kv)
  have v: "unmarshalValue v = Some (exact v)"
    by (rule unmarshalValue_small) (use Cons.prems kv in auto)
  have rest: "unmarshalFields info (m(k \<mapsto> exact v)) =
       Some (\<lambda>name. case map_of (rev info) name of None \<Rightarrow> (m(k \<mapsto> exact v)) name
                     | Some v \<Rightarrow> Some (exact v))"
    by (rule Cons.IH) (use Cons.prems in auto)
  have "(\<lambda>name. case map_of (rev info) name of None \<Rightarrow> (m(k \<mapsto> exact v)) name
                     | Some v \<Rightarrow> Some (exact v))
        = (\<lambda>name. case map_of (rev (kv # info)) name of None \<Rightarrow> m name | Some v \<Rightarrow> Some (exact v))"
    by (auto simp: fun_eq_iff kv map_add_def split: option.splits)
  with v rest show ?case by (simp add: kv)
qed

lemma Unmarshal_small:
  assumes "\<And>name n. (name, JNum n) \<in> set info \<Longrightarrow> n < 2 ^ 53"
  shows "Unmarshal info = Some (\<lambda>name. map_option exact (map_of (rev info) name))"
proof -
  have "(\<lambda>name. case map_of (rev info) name of None \<Rightarrow> Map.empty name | Some v \<Rightarrow> Some (exact v))
        = (\<lambda>name. map_option exact (map_of (rev info) name))"
    by (auto simp: fun_eq_iff split: option.splits)
  with unmarshalFields_small [where info = info and m = Map.empty, OF assms] show ?thesis
    by (simp add: Unmarshal_def)
qed

lemma exact_Float64: "exact v = Float64 n \<longleftrightarrow> v = JNum n"
  by (cases v) (simp_all add: exact_def)

lemma scanOnline_set:
  "set (scanOnline big store r keys) =
     {toUint big fu |fu k info m fr.
        k \<in> set keys \<and> map_of store k = Some (Some info) \<and> Unmarshal info = Some m \<and>
        m ''room_id'' = Some (Float64 fr) \<and> toUint big fr = r \<and>
        m ''user_id'' = Some (Float64 fu)}"
  (is "_ = ?R keys")
proof (induction keys)
  case Nil
  then show ?case by simp
next
  case (Cons key keys)
  have split: "?R (key # keys) = ?R [key] \<union> ?R keys" by auto blast+
  have one: "set (scanOnline big store r (key # keys)) =
          ?R [key] \<union> set (scanOnline big store r keys)"
    by (auto split: option.splits ival.splits)
  show ?case unfolding one split Cons.IH ..
qed

text \<open>
  When every number in the entries is below \<open>2^53\<close>, what is read equals what is
  written.
\<close>

lemma listedIn_small:
  assumes "smallNumbers rd"
  shows "listedIn big rd r = presenceIn rd r"
proof -
  have dec: "Unmarshal info = Some (\<lambda>name. map_option exact (map_of (rev info) name))"
    and num: "\<And>name n. map_of (rev info) name = Some (JNum n) \<Longrightarrow> n < 2 ^ 53"
    if "map_of (onlineKeys rd) k = Some (Some info)" for k info
  proof -
    have small: "\<And>name n. (name, JNum n) \<in> set info \<Longrightarrow> n < 2 ^ 53"
      using assms that unfolding smallNumbers_def by blast
    then show "Unmarshal info = Some (\<lambda>name. map_option exact (map_of (rev info) name))"
      by (rule Unmarshal_small)
    show "n < 2 ^ 53" if "map_of (rev info) name = Some (JNum n)" for name n
      using map_of_SomeD [OF that] small by simp
  qed
  show ?thesis
  proof (intro set_eqI iffI)
    fix u
    assume "u \<in> listedIn big rd r"
    then obtain fu k info m fr where e: "map_of (onlineKeys rd) k = Some (Some info)"
      and m: "Unmarshal info = Some m" and rm: "m ''room_id'' = Some (Float64 fr)"
      and rr: "toUint big fr = r" and um: "m ''user_id'' = Some (Float64 fu)"
      and u: "u = toUint big fu"
      unfolding listedIn_def by blast
    from m dec [OF e] have mm: "m = (\<lambda>name. map_option exact (map_of (rev info) name))" by simp
    from rm mm have r1: "map_of (rev info) ''room_id'' = Some (JNum fr)"
      by (auto simp: exact_Float64)
    from um mm have u1: "map_of (rev info) ''user_id'' = Some (JNum fu)"
      by (auto simp: exact_Float64)
    from num [OF e r1] rr have "fr = r" by (simp add: toUint_small)
    moreover from num [OF e u1] u have "fu = u" by (simp add: toUint_small)
    ultimately show "u \<in> presenceIn rd r"
      using e r1 u1 unfolding presenceIn_def by blast
  next
    fix u
    assume "u \<in> presenceIn rd r"
    then obtain k info where e: "map_of (onlineKeys rd) k = Some (Some info)"
      and r1: "map_of (rev info) ''room_id'' = Some (JNum r)"
      and u1: "map_of (rev info) ''user_id'' = Some (JNum u)"
      unfolding presenceIn_def by blast
    let ?m = "\<lambda>name. map_option exact (map_of (rev info) name)"
    have "Unmarshal info = Some ?m" by (rule dec [OF e])
    moreover have "?m ''room_id'' = Some (Float64 r)" using r1 by (simp add: exact_def)
    moreover have "?m ''user_id'' = Some (Float64 u)" using u1 by (simp add: exact_def)
    moreover have "toUint big r = r" using num [OF e r1] by (rule toUint_small)
    moreover have "u = toUint big u" using num [OF e u1] by (simp add: toUint_small)
    ultimately show "u \<in> listedIn big rd r"
      using e unfolding listedIn_def by blast
  qed
qed

text \<open>An entry written by \<^verbatim>\<open>SetUserOnline\<close> holds its user under its room.\<close>

lemma SetUserOnline_listed:
  "RedisClient w = Some rd \<Longrightarrow> redisUp rd \<Longrightarrow>
     \<exists>rd'. RedisClient (snd (SetUserOnline u r w)) = Some rd' \<and> redisUp rd' \<and>
           u \<in> presenceIn rd' r"
  by (auto simp: SetUserOnline_def presenceIn_def Let_def)

text \<open>
  Claim C10, as the code has it. Without a cache client \<^verbatim>\<open>GetOnlineUsers\<close> returns
  the empty list and no error. With a cache that answers, it returns the ids read out
  of the presence entries through \<^verbatim>\<open>float64\<close>; when every number written in the
  entries is below \<open>2^53\<close>, these are exactly the \<^verbatim>\<open>user_id\<close>s of the entries
  whose \<^verbatim>\<open>room_id\<close> is the room asked for, and an entry naming another room
  contributes nothing.
\<close>

theorem GetOnlineUsers_exact:
  "(RedisClient w = None \<longrightarrow> GetOnlineUsers r w = Inr []) \<and>
   (RedisClient w = Some rd \<and> redisUp rd \<longrightarrow>
      (\<exists>us. GetOnlineUsers r w = Inr us \<and> set us = listedIn (uintOfBig w) rd r \<and>
            (smallNumbers rd \<longrightarrow> set us = presenceIn rd r)))"
proof -
  have "\<And>k v. map_of (onlineKeys rd) k = Some v \<Longrightarrow> k \<in> set (map fst (onlineKeys rd))"
    by (auto dest: map_of_SomeD intro: rev_image_eqI)
  then have "set (scanOnline (uintOfBig w) (onlineKeys rd) r (map fst (onlineKeys rd)))
               = listedIn (uintOfBig w) rd r"
    unfolding scanOnline_set listedIn_def by blast
  then show ?thesis
    using listedIn_small [of rd "uintOfBig w" r] by (simp add: GetOnlineUsers_def)
qed

lemma cachedWorld_redis:
  "RedisClient cachedWorld =
     Some \<lparr>redisUp = True,
           onlineKeys = [(3, Some [(''user_id'', JNum 3), (''room_id'', JNum 2), (''timestamp'', JNum 0)]),
                         (1, Some [(''user_id'', JNum 1), (''room_id'', JNum 1), (''timestamp'', JNum 0)])],
           roomMessages = (\<lambda>r. [])\<rparr>"
  by (simp add: cachedWorld_def SetUserOnline_def world0_def emptyRedis_def Let_def)

lemma Unmarshal_entry:
  "u < 2 ^ 53 \<Longrightarrow> r < 2 ^ 53 \<Longrightarrow>
   Unmarshal [(''user_id'', JNum u), (''room_id'', JNum r), (''timestamp'', JNum 0)] =
     Some [''user_id'' \<mapsto> Float64 u, ''room_id'' \<mapsto> Float64 r, ''timestamp'' \<mapsto> Float64 0]"
  by (simp add: Unmarshal_def unmarshalValue_def roundFloat64_small)

text \<open>
  The theorem without a cache, and at a cache in which user 1 is online in room 1 and
  user 3 in room 2.
\<close>

theorem GetOnlineUsers_exact_witness:
  "GetOnlineUsers 1 world0 = Inr [] \<and>
   GetOnlineUsers 1 cachedWorld = Inr [1] \<and>
   (\<exists>rd us. RedisClient cachedWorld = Some rd \<and> redisUp rd \<and> smallNumbers rd \<and>
      GetOnlineUsers 1 cachedWorld = Inr us \<and> set us = presenceIn rd 1)"
proof -
  have none: "RedisClient world0 = None" by (simp add: world0_def)
  have a: "GetOnlineUsers 1 world0 = Inr []"
    using GetOnlineUsers_exact [where w = world0 and r = 1] none by simp
  have b: "GetOnlineUsers 1 cachedWorld = Inr [1]"
    by (simp add: GetOnlineUsers_def cachedWorld_redis Unmarshal_entry toUint_def)
  from cachedWorld_redis obtain rd where rd: "RedisClient cachedWorld = Some rd" "redisUp rd"
    and keys: "onlineKeys rd =
       [(3, Some [(''user_id'', JNum 3), (''room_id'', JNum 2), (''timestamp'', JNum 0)]),
        (1, Some [(''user_id'', JNum 1), (''room_id'', JNum 1), (''timestamp'', JNum 0)])]"
    by simp
  have small: "smallNumbers rd"
    unfolding smallNumbers_def keys by (auto split: if_splits)
  with rd GetOnlineUsers_exact [where w = cachedWorld and rd = rd and r = 1]
  have "\<exists>us. GetOnlineUsers 1 cachedWorld = Inr us \<and> set us = presenceIn rd 1" by auto
  with rd small a b show ?thesis by blast
qed

lemma roundFloat64_tie: "roundFloat64 9007199254740993 = 9007199254740992"
proof -
  have "scale 9007199254740993 = Suc (scale 4503599627370496)"
    by (subst scale.simps) simp
  also have "scale 4503599627370496 = 0" by (rule scale_small) simp
  finally have e: "scale 9007199254740993 = 1" by simp
  show ?thesis by (simp add: roundFloat64_def e)
qed

text \<open>
  The claim C10 as written fails for ids of \<open>2^53\<close> and more. User 7 is set online in
  room \<open>2^53 + 1\<close>; the entry is read back as room \<open>2^53\<close>, so the user is listed
  for room \<open>2^53\<close>, which the entry does not name, and not for room \<open>2^53 + 1\<close>.
\<close>

theorem big_room_id_counterexample:
  "RedisClient bigRoomWorld =
     Some \<lparr>redisUp = True,
           onlineKeys = [(7, Some [(''user_id'', JNum 7), (''room_id'', JNum 9007199254740993),
                                   (''timestamp'', JNum 0)])],
           roomMessages = (\<lambda>r. [])\<rparr> \<and>
   GetOnlineUsers 9007199254740992 bigRoomWorld = Inr [7] \<and>
   GetOnlineUsers 9007199254740993 bigRoomWorld = Inr []"
proof -
  have rd: "RedisClient bigRoomWorld =
     Some \<lparr>redisUp = True,
           onlineKeys = [(7, Some [(''user_id'', JNum 7), (''room_id'', JNum 9007199254740993),
                                   (''timestamp'', JNum 0)])],
           roomMessages = (\<lambda>r. [])\<rparr>"
    by (simp add: bigRoomWorld_def SetUserOnline_def world0_def emptyRedis_def Let_def)
  have um: "Unmarshal [(''user_id'', JNum 7), (''room_id'', JNum 9007199254740993),
                      (''timestamp'', JNum 0)] =
     Some [''user_id'' \<mapsto> Float64 7, ''room_id'' \<mapsto> Float64 9007199254740992,
           ''timestamp'' \<mapsto> Float64 0]"
    by (simp add: Unmarshal_def unmarshalValue_def roundFloat64_small roundFloat64_tie)
  show ?thesis
    by (simp add: rd GetOnlineUsers_def um toUint_def)
qed


subsection \<open>The room id of an attach request\<close>

lemma decimal_mono: "n \<le> decimal n cs"
proof (induction cs arbitrary: n)
  case Nil
  then show ?case by simp
next
  case (Cons c cs)
  have "n \<le> n * 10 + ((of_char c :: nat) - 48)" by simp
  also have "\<dots> \<le> decimal (n * 10 + ((of_char c :: nat) - 48)) cs" by (rule Cons.IH)
  finally show ?case by simp
qed

lemma maxVal_value: "maxVal = 4294967295"
  by (simp add: maxVal_def)

lemma cutoff_value: "cutoff = 1844674407370955162"
  by (simp add: cutoff_def maxUint64_def)

lemma parseDigits_Cons:
  assumes "isDigit c" and "n \<le> maxVal"
  shows "parseDigits n (c # cs) =
           (if maxVal < n * 10 + ((of_char c :: nat) - 48) then Inl RangeError
            else parseDigits (n * 10 + ((of_char c :: nat) - 48)) cs)"
proof -
  define d where "d = (of_char c :: nat) - 48"
  have d9: "d \<le> 9" using assms(1) unfolding isDigit_def d_def by linarith
  have n: "n \<le> 4294967295" using assms(2) by (simp add: maxVal_value)
  have "n * 10 + d < 18446744073709551616" "n * 10 < 18446744073709551616"
    using d9 n by linarith+
  then have eq: "(n * 10) mod 18446744073709551616 = n * 10"
    "(n * 10 + d) mod 18446744073709551616 = n * 10 + d"
    by simp_all
  have nc: "\<not> cutoff \<le> n" using n by (simp add: cutoff_value)
  have "parseDigits n (c # cs) =
          (if cutoff \<le> n then Inl RangeError
           else let n10 = (n * 10) mod 2 ^ 64; n1 = (n10 + d) mod 2 ^ 64
                in if n1 < n10 \<or> maxVal < n1 then Inl RangeError else parseDigits n1 cs)"
    using assms(1) by (simp add: isDigit_def d_def Let_def)
  also have "\<dots> = (if maxVal < n * 10 + d then Inl RangeError else parseDigits (n * 10 + d) cs)"
    using nc by (simp add: Let_def eq)
  finally show ?thesis by (simp add: d_def)
qed

lemma parseDigits_not_digit: "\<not> isDigit c \<Longrightarrow> parseDigits n (c # cs) = Inl SyntaxError"
  by (auto simp: isDigit_def)

lemma parseDigits_ok:
  "list_all isDigit cs \<Longrightarrow> n \<le> maxVal \<Longrightarrow> decimal n cs \<le> maxVal \<Longrightarrow>
     parseDigits n cs = Inr (decimal n cs)"
proof (induction cs arbitrary: n)
  case Nil
  then show ?case by simp
next
  case (Cons c cs)
  let ?n1 = "n * 10 + ((of_char c :: nat) - 48)"
  from Cons.prems have dig: "isDigit c" and rest: "list_all isDigit cs" by simp_all
  have "?n1 \<le> decimal ?n1 cs" by (rule decimal_mono)
  with Cons.prems(3) have n1: "?n1 \<le> maxVal" by simp
  have "parseDigits ?n1 cs = Inr (decimal ?n1 cs)"
    using rest n1 Cons.prems(3) by (intro Cons.IH) simp_all
  then show ?case
    using n1 by (simp only: parseDigits_Cons [OF dig Cons.prems(2)] decimal.simps) simp
qed

lemma parseDigits_sound:
  "parseDigits n cs = Inr v \<Longrightarrow> n \<le> maxVal \<Longrightarrow>
     list_all isDigit cs \<and> v = decimal n cs \<and> v \<le> maxVal"
proof (induction cs arbitrary: n)
  case Nil
  then show ?case by simp
next
  case (Cons c cs)
  let ?n1 = "n * 10 + ((of_char c :: nat) - 48)"
  have dig: "isDigit c"
  proof (rule ccontr)
    assume "\<not> isDigit c"
    then have "parseDigits n (c # cs) = Inl SyntaxError" by (rule parseDigits_not_digit)
    with Cons.prems(1) show False by simp
  qed
  from Cons.prems(1) have "(if maxVal < ?n1 then Inl RangeError else parseDigits ?n1 cs) = Inr v"
    by (simp only: parseDigits_Cons [OF dig Cons.prems(2)])
  then have step: "parseDigits ?n1 cs = Inr v" and le: "?n1 \<le> maxVal"
    by (simp_all split: if_splits)
  from Cons.IH [OF step le] dig show ?case by simp
qed

text \<open>
  What \<^verbatim>\<open>ParseUint(s, 10, 32)\<close> accepts: the non-empty strings of decimal digits
  whose value is at most \<open>2^32 - 1\<close>, and it returns that value.
\<close>

lemma ParseUint_iff:
  "ParseUint s = Inr v \<longleftrightarrow>
     s \<noteq> [] \<and> list_all isDigit s \<and> decimal 0 s \<le> maxVal \<and> v = decimal 0 s"
proof
  assume "ParseUint s = Inr v"
  then have ne: "s \<noteq> []" and p: "parseDigits 0 s = Inr v"
    by (simp_all add: ParseUint_def split: if_splits)
  from parseDigits_sound [OF p] ne
  show "s \<noteq> [] \<and> list_all isDigit s \<and> decimal 0 s \<le> maxVal \<and> v = decimal 0 s"
    by (simp add: maxVal_value)
next
  assume a: "s \<noteq> [] \<and> list_all isDigit s \<and> decimal 0 s \<le> maxVal \<and> v = decimal 0 s"
  then have "parseDigits 0 s = Inr (decimal 0 s)"
    by (intro parseDigits_ok) simp_all
  with a show "ParseUint s = Inr v" by (simp add: ParseUint_def)
qed

lemma ParseUint_empty: "ParseUint [] = Inl SyntaxError"
  by (simp add: ParseUint_def)

lemma ParseUint_1: "ParseUint ''1'' = Inr 1"
  by (simp add: ParseUint_def cutoff_value maxVal_value Let_def)

text \<open>
  Claim C8, as the code has it. For an authenticated request: when the
  \<^verbatim>\<open>room_id\<close> parameter is absent or empty and the upgrade succeeds, the new
  client is built with room 1 and registered; a non-empty value that
  \<^verbatim>\<open>ParseUint(\<dots>, 10, 32)\<close> rejects is answered with bad-request and the world is
  untouched (no client built, nothing registered); a non-empty value that parses becomes
  the \<^verbatim>\<open>RoomID\<close> of the client that is built and registered.
\<close>

theorem HandleWebSocket_room_id:
  assumes "currentUserID req = Some userID"
  shows "((queryRoomID req = None \<or> queryRoomID req = Some []) \<and> upgradeSucceeds req \<longrightarrow>
            HandleWebSocket req w =
              (Upgraded, RegisterClient (newClient req) (attached req userID 1 w)))
       \<and> (queryRoomID req = Some s \<and> s \<noteq> [] \<and> ParseUint s = Inl err \<longrightarrow>
            HandleWebSocket req w = (StatusBadRequest, Returns w))
       \<and> (queryRoomID req = Some s \<and> s \<noteq> [] \<and> ParseUint s = Inr roomID \<and> upgradeSucceeds req \<longrightarrow>
            HandleWebSocket req w =
              (Upgraded, RegisterClient (newClient req) (attached req userID roomID w)))"
  using assms by (auto simp: HandleWebSocket_def Query_def attached_def ParseUint_1 Let_def)

theorem HandleWebSocket_room_id_witness:
  "HandleWebSocket (attachRequest None) world0 =
     (Upgraded, RegisterClient 5 (attached (attachRequest None) 4 1 world0)) \<and>
   HandleWebSocket (attachRequest (Some ''2x'')) world0 = (StatusBadRequest, Returns world0) \<and>
   HandleWebSocket (attachRequest (Some ''4294967296'')) world0 = (StatusBadRequest, Returns world0) \<and>
   HandleWebSocket (attachRequest (Some ''2'')) world0 =
     (Upgraded, RegisterClient 5 (attached (attachRequest (Some ''2'')) 4 2 world0))"
proof -
  have u: "\<And>q. currentUserID (attachRequest q) = Some 4" "\<And>q. upgradeSucceeds (attachRequest q)"
       "\<And>q. queryRoomID (attachRequest q) = q" "\<And>q. newClient (attachRequest q) = 5"
    by (simp_all add: attachRequest_def)
  have p1: "ParseUint ''2x'' = Inl SyntaxError"
    by (simp add: ParseUint_def cutoff_value maxVal_value Let_def)
  have p2: "ParseUint ''4294967296'' = Inl RangeError"
    by (simp add: ParseUint_def cutoff_value maxVal_value Let_def)
  have p3: "ParseUint ''2'' = Inr 2"
    by (simp add: ParseUint_def cutoff_value maxVal_value Let_def)
  show ?thesis
    using HandleWebSocket_room_id [where req = "attachRequest None" and userID = 4 and w = world0]
      HandleWebSocket_room_id [where req = "attachRequest (Some ''2x'')" and userID = 4
        and s = "''2x''" and err = SyntaxError and w = world0]
      HandleWebSocket_room_id [where req = "attachRequest (Some ''4294967296'')" and userID = 4
        and s = "''4294967296''" and err = RangeError and w = world0]
      HandleWebSocket_room_id [where req = "attachRequest (Some ''2'')" and userID = 4
        and s = "''2''" and roomID = 2 and w = world0]
    by (simp add: u p1 p2 p3)
qed

text \<open>
  The claim as written fails for a request that carries the parameter with an empty
  value (\<^verbatim>\<open>?room_id=\<close>): the empty string is no unsigned integer, yet the request
  is upgraded and the client is built with room 1.
\<close>

theorem empty_room_id_counterexample:
  "queryRoomID (attachRequest (Some [])) = Some [] \<and>
   ParseUint [] = Inl SyntaxError \<and>
   HandleWebSocket (attachRequest (Some [])) world0 =
     (Upgraded, RegisterClient 5 (attached (attachRequest (Some [])) 4 1 world0)) \<and>
   RoomID (heap (attached (attachRequest (Some [])) 4 1 world0) 5) = 1"
  by (simp add: attachRequest_def ParseUint_empty HandleWebSocket_def Query_def ParseUint_1
      attached_def Let_def)

subsection \<open>Steps that only shrink the registry\<close>

lemma shrinks_refl: "shrinks w w"
  by (simp add: shrinks_def)

lemma shrinks_trans: "shrinks w1 w2 \<Longrightarrow> shrinks w2 w3 \<Longrightarrow> shrinks w1 w3"
  unfolding shrinks_def
  apply (intro conjI)
     apply blast
    apply simp
   apply simp
  apply (intro allI impI)
  apply (elim conjE)
  apply (meson subsetD)
  done

lemma roomIndexed_shrinks: "roomIndexed w \<Longrightarrow> shrinks w w' \<Longrightarrow> roomIndexed w'"
  unfolding roomIndexed_def shrinks_def
  by (metis subsetD)

lemma userIndexed_shrinks: "userIndexed w \<Longrightarrow> shrinks w w' \<Longrightarrow> userIndexed w'"
  unfolding userIndexed_def shrinks_def
  by (metis subsetD)

lemma shrinks_thenDo:
  assumes "final (thenDo m f) = Some w'"
    and "\<And>w1. final m = Some w1 \<Longrightarrow> shrinks w w1"
    and "\<And>w1 w2. m = Returns w1 \<Longrightarrow> final (f w1) = Some w2 \<Longrightarrow> shrinks w1 w2"
  shows "shrinks w w'"
  using assms by (cases m) (auto intro: shrinks_trans)

lemma shrinks_setSend: "shrinks w (setSend c ch w)"
  by (simp add: shrinks_def setSend_def)

lemma evict_shrinks: "evict r c w = Returns w' \<Longrightarrow> shrinks w w'"
  by (auto simp: evict_def shrinks_def setSend_def mapDelete_def Let_def
      split: option.splits)

lemma evict_cases: "(\<exists>w'. evict r c w = Returns w') \<or> evict r c w = Panics CloseOfClosedChannel"
  by (simp add: evict_def Let_def split: option.splits)

lemma fanout_shrinks: "final (fanout r f room w) = Some w' \<Longrightarrow> shrinks w w'"
proof (induction room arbitrary: w)
  case Nil
  then show ?case by (simp add: shrinks_refl)
next
  case (Cons c room)
  show ?case
  proof (cases "trySend (Send (heap w c)) f")
    case (Sent ch)
    with Cons.prems have "final (fanout r f room (setSend c ch w)) = Some w'" by simp
    then have "shrinks (setSend c ch w) w'" by (rule Cons.IH)
    then show ?thesis using shrinks_setSend shrinks_trans by blast
  next
    case WouldBlock
    with Cons.prems have fin: "final (thenDo (evict r c w) (fanout r f room)) = Some w'" by simp
    with evict_cases [of r c w]
    obtain w1 where ev: "evict r c w = Returns w1" and rest: "final (fanout r f room w1) = Some w'"
      by auto
    from ev have "shrinks w w1" by (rule evict_shrinks)
    moreover from rest have "shrinks w1 w'" by (rule Cons.IH)
    ultimately show ?thesis by (rule shrinks_trans)
  next
    case SendPanics
    with Cons.prems show ?thesis by simp
  qed
qed

lemma Lock_shrinks: "final (Lock w) = Some w1 \<Longrightarrow> shrinks w w1"
  by (auto simp: Lock_def shrinks_def split: rwmutex.splits)

lemma RLock_shrinks: "final (RLock w) = Some w1 \<Longrightarrow> shrinks w w1"
  by (auto simp: RLock_def shrinks_def split: rwmutex.splits)

lemma Unlock_shrinks: "final (Unlock w) = Some w1 \<Longrightarrow> shrinks w w1"
  by (auto simp: Unlock_def shrinks_def split: rwmutex.splits)

lemma RUnlock_shrinks: "final (RUnlock w) = Some w1 \<Longrightarrow> shrinks w w1"
  by (auto simp: RUnlock_def shrinks_def split: rwmutex.splits if_splits)

lemma broadcastToRoom_shrinks: "final (broadcastToRoom r f w) = Some w' \<Longrightarrow> shrinks w w'"
  unfolding broadcastToRoom_def
  apply (erule shrinks_thenDo)
   apply (erule RLock_shrinks)
  apply (erule shrinks_thenDo)
   apply (auto split: option.splits simp: shrinks_refl fanout_shrinks RUnlock_shrinks)
  done

lemma hub_SetUserOnline: "hub (snd (SetUserOnline u r w)) = hub w"
  by (simp add: SetUserOnline_def Let_def split: option.splits)

lemma heap_SetUserOnline: "heap (snd (SetUserOnline u r w)) = heap w"
  by (simp add: SetUserOnline_def Let_def split: option.splits)

lemma hub_SetUserOffline: "hub (snd (SetUserOffline u w)) = hub w"
  by (simp add: SetUserOffline_def split: option.splits)

lemma heap_SetUserOffline: "heap (snd (SetUserOffline u w)) = heap w"
  by (simp add: SetUserOffline_def split: option.splits)

lemmas cache_frame = hub_SetUserOnline heap_SetUserOnline hub_SetUserOffline heap_SetUserOffline

lemma sendOnlineUsers_shrinks: "final (sendOnlineUsers c w) = Some w' \<Longrightarrow> shrinks w w'"
  by (auto simp: sendOnlineUsers_def Let_def shrinks_refl shrinks_setSend
      split: sum.splits send_result.splits option.splits)

lemma notifyUserJoined_shrinks: "final (notifyUserJoined c w) = Some w' \<Longrightarrow> shrinks w w'"
  by (auto simp: notifyUserJoined_def Let_def shrinks_refl broadcastToRoom_shrinks
      split: sum.splits)

lemma notifyUserLeft_shrinks: "final (notifyUserLeft c w) = Some w' \<Longrightarrow> shrinks w w'"
  by (auto simp: notifyUserLeft_def Let_def broadcastToRoom_shrinks)

lemma registerBody_installed:
  "registerBody c w = thenDo (notifyUserJoined c (installed c w)) (sendOnlineUsers c)"
  by (simp add: registerBody_def installed_def Let_def)

lemma unregisterBody_removed:
  "unregisterBody c w =
     (if c \<in> clients (hub w) then
        (case closeChan (Send (heap w c)) of
           None \<Rightarrow> Panics CloseOfClosedChannel
         | Some ch \<Rightarrow> notifyUserLeft c (removed c ch w))
      else Returns w)"
  by (simp add: unregisterBody_def removed_def Let_def split: option.splits)

lemma registerBody_shrinks:
  "final (registerBody c w) = Some w' \<Longrightarrow> shrinks (installed c w) w'"
  unfolding registerBody_installed
  apply (erule shrinks_thenDo)
   apply (erule notifyUserJoined_shrinks)
  apply (erule sendOnlineUsers_shrinks)
  done

lemma roomIndexed_installed: "roomIndexed w \<Longrightarrow> roomIndexed (installed c w)"
  unfolding roomIndexed_def installed_def Let_def mapSet_def
  by (auto simp: cache_frame split: option.splits)

lemma userIndexed_installed:
  "userIndexed w \<Longrightarrow>
   (\<forall>c' \<in> clients (hub w). UserID (heap w c') = UserID (heap w c) \<longrightarrow> c' = c) \<Longrightarrow>
   userIndexed (installed c w)"
  unfolding userIndexed_def installed_def Let_def
  by (auto simp: cache_frame)

lemma roomIndexed_removed:
  assumes "roomIndexed w"
  shows "roomIndexed (removed c ch w)"
  unfolding roomIndexed_def
proof
  fix c'
  assume "c' \<in> clients (hub (removed c ch w))"
  then have in': "c' \<in> clients (hub w)" and ne: "c' \<noteq> c"
    by (auto simp: removed_def Let_def setSend_def cache_frame split: option.splits if_splits)
  from assms in' obtain room where room: "rooms (hub w) (RoomID (heap w c')) = Some room"
    and mem: "c' \<in> set room"
    unfolding roomIndexed_def by blast
  from mem ne have keep: "c' \<in> set (removeAll c room)" by simp
  have nonempty: "removeAll c room \<noteq> []"
  proof
    assume "removeAll c room = []"
    then have "set (removeAll c room) = {}" by (simp only: list.set)
    with keep show False by (simp only: empty_iff)
  qed
  have ids: "RoomID (heap (removed c ch w) c') = RoomID (heap w c')"
    using ne by (simp add: removed_def Let_def setSend_def cache_frame)
  show "\<exists>room'. rooms (hub (removed c ch w)) (RoomID (heap (removed c ch w) c')) = Some room' \<and>
          c' \<in> set room'"
  proof (cases "RoomID (heap w c') = RoomID (heap w c)")
    case True
    with room keep nonempty show ?thesis
      unfolding ids
      by (simp add: removed_def Let_def setSend_def cache_frame mapDelete_def)
  next
    case False
    with room mem show ?thesis
      unfolding ids
      by (simp add: removed_def Let_def setSend_def cache_frame mapDelete_def
          split: option.splits)
  qed
qed

lemma userIndexed_removed:
  assumes "userIndexed w" and "c \<in> clients (hub w)"
  shows "userIndexed (removed c ch w)"
  unfolding userIndexed_def
proof
  fix c'
  assume "c' \<in> clients (hub (removed c ch w))"
  then have in': "c' \<in> clients (hub w)" and ne: "c' \<noteq> c"
    by (auto simp: removed_def Let_def setSend_def cache_frame split: option.splits if_splits)
  from assms in' have u': "users (hub w) (UserID (heap w c')) = Some c'"
    and u: "users (hub w) (UserID (heap w c)) = Some c"
    unfolding userIndexed_def by blast+
  with ne have diff: "UserID (heap w c') \<noteq> UserID (heap w c)" by auto
  have ids: "UserID (heap (removed c ch w) c') = UserID (heap w c')"
    using ne by (simp add: removed_def Let_def setSend_def cache_frame)
  show "users (hub (removed c ch w)) (UserID (heap (removed c ch w) c')) = Some c'"
    unfolding ids using u' diff
    by (simp add: removed_def Let_def setSend_def cache_frame split: option.splits)
qed

lemma unregisterBody_inv:
  assumes "final (unregisterBody c w) = Some w'"
  shows "(roomIndexed w \<longrightarrow> roomIndexed w') \<and> (userIndexed w \<longrightarrow> userIndexed w')"
proof (cases "c \<in> clients (hub w)")
  case False
  with assms show ?thesis by (simp add: unregisterBody_removed)
next
  case True
  with assms obtain ch where "final (notifyUserLeft c (removed c ch w)) = Some w'"
    by (auto simp: unregisterBody_removed split: option.splits)
  then have "shrinks (removed c ch w) w'" by (rule notifyUserLeft_shrinks)
  with True show ?thesis
    using roomIndexed_removed roomIndexed_shrinks userIndexed_removed userIndexed_shrinks
    by blast
qed

lemma registerBody_inv:
  assumes "final (registerBody c w) = Some w'"
  shows "(roomIndexed w \<longrightarrow> roomIndexed w') \<and>
         (userIndexed w \<and> (\<forall>c' \<in> clients (hub w). UserID (heap w c') = UserID (heap w c) \<longrightarrow> c' = c)
            \<longrightarrow> userIndexed w')"
  using registerBody_shrinks [OF assms] roomIndexed_installed roomIndexed_shrinks
    userIndexed_installed userIndexed_shrinks
  by blast

lemma locked_same:
  "Lock w = Returns w1 \<Longrightarrow>
     clients (hub w1) = clients (hub w) \<and> rooms (hub w1) = rooms (hub w) \<and>
     users (hub w1) = users (hub w) \<and> heap w1 = heap w"
  by (auto simp: Lock_def split: rwmutex.splits)

lemma Lock_inv:
  assumes "Lock w = Returns w1"
  shows "roomIndexed w1 = roomIndexed w" "userIndexed w1 = userIndexed w"
  using locked_same [OF assms] by (simp_all add: roomIndexed_def userIndexed_def)

lemma Lock_cases: "(\<exists>w1. Lock w = Returns w1) \<or> Lock w = Blocks w"
  by (simp add: Lock_def split: rwmutex.splits)

lemma registerClient_inv:
  assumes "final (registerClient c w) = Some w'"
  shows "(roomIndexed w \<longrightarrow> roomIndexed w') \<and>
         (userIndexed w \<and> (\<forall>c' \<in> clients (hub w). UserID (heap w c') = UserID (heap w c) \<longrightarrow> c' = c)
            \<longrightarrow> userIndexed w')"
proof -
  from Lock_cases [of w] show ?thesis
  proof
    assume "\<exists>w1. Lock w = Returns w1"
    then obtain w1 where l: "Lock w = Returns w1" by blast
    with assms have fin: "final (thenDo (registerBody c w1) Unlock) = Some w'"
      by (simp add: registerClient_def)
    from l have same: "clients (hub w1) = clients (hub w)" "heap w1 = heap w"
      using locked_same by blast+
    show ?thesis
    proof (cases "registerBody c w1")
      case (Returns w2)
      with fin have "final (Unlock w2) = Some w'" by simp
      then have "shrinks w2 w'" by (rule Unlock_shrinks)
      moreover from Returns have "final (registerBody c w1) = Some w2" by simp
      note registerBody_inv [OF this]
      ultimately show ?thesis
        using Lock_inv [OF l] same roomIndexed_shrinks userIndexed_shrinks by auto
    next
      case (Panics p)
      with fin show ?thesis by simp
    next
      case (Blocks w2)
      with fin have "w2 = w'" by simp
      with Blocks have "final (registerBody c w1) = Some w'" by simp
      from registerBody_inv [OF this] show ?thesis
        using Lock_inv [OF l] same by auto
    qed
  next
    assume "Lock w = Blocks w"
    with assms show ?thesis by (simp add: registerClient_def)
  qed
qed

lemma unregisterClient_inv:
  assumes "final (unregisterClient c w) = Some w'"
  shows "(roomIndexed w \<longrightarrow> roomIndexed w') \<and> (userIndexed w \<longrightarrow> userIndexed w')"
proof -
  from Lock_cases [of w] show ?thesis
  proof
    assume "\<exists>w1. Lock w = Returns w1"
    then obtain w1 where l: "Lock w = Returns w1" by blast
    with assms have fin: "final (thenDo (unregisterBody c w1) Unlock) = Some w'"
      by (simp add: unregisterClient_def)
    show ?thesis
    proof (cases "unregisterBody c w1")
      case (Returns w2)
      with fin have "final (Unlock w2) = Some w'" by simp
      then have "shrinks w2 w'" by (rule Unlock_shrinks)
      moreover from Returns have "final (unregisterBody c w1) = Some w2" by simp
      note unregisterBody_inv [OF this]
      ultimately show ?thesis
        using Lock_inv [OF l] roomIndexed_shrinks userIndexed_shrinks by auto
    next
      case (Panics p)
      with fin show ?thesis by simp
    next
      case (Blocks w2)
      with fin have "w2 = w'" by simp
      with Blocks have "final (unregisterBody c w1) = Some w'" by simp
      from unregisterBody_inv [OF this] show ?thesis
        using Lock_inv [OF l] by auto
    qed
  next
    assume "Lock w = Blocks w"
    with assms show ?thesis by (simp add: unregisterClient_def)
  qed
qed

lemma Run_step_inv:
  assumes "final (Run_step cmd w) = Some w'" and "admissible dup cmd w"
  shows "(roomIndexed w \<longrightarrow> roomIndexed w') \<and> (\<not> dup \<and> userIndexed w \<longrightarrow> userIndexed w')"
proof (cases cmd)
  case (Register c)
  with assms registerClient_inv [of c w w'] show ?thesis
    by (auto simp: admissible_def)
next
  case (Unregister c)
  with assms unregisterClient_inv [of c w w'] show ?thesis by auto
next
  case (Broadcast r m)
  with assms have "shrinks w w'" by (simp add: broadcastToRoom_shrinks)
  then show ?thesis using roomIndexed_shrinks userIndexed_shrinks by blast
qed

lemma environment_inv:
  assumes "environment w w'"
  shows "roomIndexed w' = roomIndexed w" "userIndexed w' = userIndexed w"
  using assms by (auto simp: environment_def roomIndexed_def userIndexed_def)

text \<open>
  Claim C1, as the code has it. In every state the Hub reaches through register,
  unregister and broadcast commands, each registered client is in the room set of its
  \<^verbatim>\<open>RoomID\<close>; when moreover no register command arrives for a user who already has
  a registered client, the user index of each registered client's \<^verbatim>\<open>UserID\<close> points
  at that client.
\<close>

theorem registry_consistent:
  "reachable dup w \<Longrightarrow> roomIndexed w \<and> (\<not> dup \<longrightarrow> userIndexed w)"
proof (induction rule: reachable.induct)
  case (start w)
  then show ?case by (simp add: roomIndexed_def userIndexed_def NewHub_def)
next
  case (command w cmd w')
  with Run_step_inv [of cmd w w' dup] show ?case by blast
next
  case (outside w w')
  with environment_inv [of w w'] show ?case by simp
qed

subsection \<open>Register and unregister under the write lock\<close>

lemma installed_hub:
  "clients (hub (installed c w)) = insert c (clients (hub w))"
  "users (hub (installed c w)) = (users (hub w))(UserID (heap w c) \<mapsto> c)"
  "mutex (hub (installed c w)) = mutex (hub w)"
  "heap (installed c w) = heap w"
  "rooms (hub (installed c w)) =
     (rooms (hub w))(RoomID (heap w c) \<mapsto>
        mapSet c (case rooms (hub w) (RoomID (heap w c)) of None \<Rightarrow> [] | Some r \<Rightarrow> r))"
  by (simp_all add: installed_def Let_def cache_frame)

lemma notifyUserJoined_locked:
  "mutex (hub x) = WriteLocked \<Longrightarrow>
     notifyUserJoined c x = Returns x \<or> notifyUserJoined c x = Blocks x"
  by (auto simp: notifyUserJoined_def broadcastToRoom_def RLock_def Let_def split: sum.splits)

lemma notifyUserLeft_locked:
  "mutex (hub x) = WriteLocked \<Longrightarrow> notifyUserLeft c x = Blocks x"
  by (simp add: notifyUserLeft_def broadcastToRoom_def RLock_def Let_def)

lemma sendOnlineUsers_frame:
  "final (sendOnlineUsers c x) = Some y \<Longrightarrow>
     hub y = hub x \<and> (\<forall>old. old \<noteq> c \<longrightarrow> heap y old = heap x old)"
  by (auto simp: sendOnlineUsers_def Let_def setSend_def
      split: sum.splits send_result.splits option.splits)

lemma Unlock_frame:
  "final (Unlock x) = Some y \<Longrightarrow>
     clients (hub y) = clients (hub x) \<and> users (hub y) = users (hub x) \<and>
     rooms (hub y) = rooms (hub x) \<and> heap y = heap x"
  by (auto simp: Unlock_def split: rwmutex.splits)

lemma Lock_unlocked:
  "mutex (hub w) = Unlocked \<Longrightarrow> Lock w = Returns (w\<lparr>hub := (hub w)\<lparr>mutex := WriteLocked\<rparr>\<rparr>)"
  by (simp add: Lock_def)

lemma sendOnlineUsers_ids:
  "final (sendOnlineUsers c x) = Some y \<Longrightarrow>
     RoomID (heap y c) = RoomID (heap x c) \<and> UserID (heap y c) = UserID (heap x c)"
  by (auto simp: sendOnlineUsers_def Let_def setSend_def
      split: sum.splits send_result.splits option.splits)

text \<open>
  Claim C2, as the code has it. \<^verbatim>\<open>registerClient\<close> looks at no earlier entry of
  the user index. Started with the lock free, it adds the client to \<open>clients\<close> and to
  the room set of its \<^verbatim>\<open>RoomID\<close> (which is created when the room has none),
  overwrites the index entry of the client's user, leaves every other room set as it
  was, removes nobody from any room set and touches no other client: an older client of
  the same user stays registered, its queue as it was (not closed, no
  \<^verbatim>\<open>user_left\<close> frame).
\<close>

theorem registerClient_installs:
  assumes "mutex (hub w) = Unlocked" and "final (registerClient c w) = Some w'"
  shows "clients (hub w') = insert c (clients (hub w)) \<and>
         users (hub w') = (users (hub w))(UserID (heap w c) \<mapsto> c) \<and>
         (\<forall>old. old \<noteq> c \<longrightarrow> heap w' old = heap w old) \<and>
         (\<forall>r room. rooms (hub w) r = Some room \<longrightarrow>
            (\<exists>room'. rooms (hub w') r = Some room' \<and> set room \<subseteq> set room')) \<and>
         RoomID (heap w' c) = RoomID (heap w c) \<and> UserID (heap w' c) = UserID (heap w c) \<and>
         (\<exists>room'. rooms (hub w') (RoomID (heap w c)) = Some room' \<and> c \<in> set room' \<and>
            set room' = insert c (case rooms (hub w) (RoomID (heap w c)) of
                                    None \<Rightarrow> {} | Some room \<Rightarrow> set room)) \<and>
         (\<forall>r. r \<noteq> RoomID (heap w c) \<longrightarrow> rooms (hub w') r = rooms (hub w) r)"
proof -
  define w1 where "w1 = w\<lparr>hub := (hub w)\<lparr>mutex := WriteLocked\<rparr>\<rparr>"
  define i where "i = installed c w1"
  have w1: "clients (hub w1) = clients (hub w)" "users (hub w1) = users (hub w)"
    "rooms (hub w1) = rooms (hub w)" "heap w1 = heap w" "mutex (hub w1) = WriteLocked"
    by (simp_all add: w1_def)
  have hi: "heap i = heap w" by (simp add: i_def installed_hub w1)
  have ri: "rooms (hub i) =
     (rooms (hub w))(RoomID (heap w c) \<mapsto>
        mapSet c (case rooms (hub w) (RoomID (heap w c)) of None \<Rightarrow> [] | Some r \<Rightarrow> r))"
    by (simp add: i_def installed_hub w1)
  have g1: "clients (hub i) = insert c (clients (hub w))"
    "users (hub i) = (users (hub w))(UserID (heap w c) \<mapsto> c)"
    by (simp_all add: i_def installed_hub w1)
  have g2: "\<forall>r room. rooms (hub w) r = Some room \<longrightarrow>
            (\<exists>room'. rooms (hub i) r = Some room' \<and> set room \<subseteq> set room')"
    by (auto simp: ri mapSet_def)
  have g3: "\<exists>room'. rooms (hub i) (RoomID (heap w c)) = Some room' \<and> c \<in> set room' \<and>
            set room' = insert c (case rooms (hub w) (RoomID (heap w c)) of
                                    None \<Rightarrow> {} | Some room \<Rightarrow> set room)"
    by (auto simp: ri mapSet_def split: option.splits)
  have g4: "\<forall>r. r \<noteq> RoomID (heap w c) \<longrightarrow> rooms (hub i) r = rooms (hub w) r"
    by (simp add: ri)
  have locked: "mutex (hub i) = WriteLocked"
    by (simp add: i_def installed_hub w1)
  have fin: "final (thenDo (thenDo (notifyUserJoined c i) (sendOnlineUsers c)) Unlock) = Some w'"
    using assms by (simp add: registerClient_def Lock_unlocked w1_def i_def registerBody_installed)
  have fin_ok: ?thesis
    if "clients (hub w') = clients (hub i)" "users (hub w') = users (hub i)"
      "rooms (hub w') = rooms (hub i)" "\<forall>old. old \<noteq> c \<longrightarrow> heap w' old = heap i old"
      "RoomID (heap w' c) = RoomID (heap i c)" "UserID (heap w' c) = UserID (heap i c)"
    using that g1 g2 g3 g4 by (simp add: hi)
  from notifyUserJoined_locked [OF locked, of c] show ?thesis
  proof
    assume "notifyUserJoined c i = Blocks i"
    with fin have "w' = i" by simp
    then show ?thesis by (intro fin_ok) simp_all
  next
    assume ret: "notifyUserJoined c i = Returns i"
    show ?thesis
    proof (cases "sendOnlineUsers c i")
      case (Returns y)
      with ret fin have u: "final (Unlock y) = Some w'" by simp
      from Returns have y: "final (sendOnlineUsers c i) = Some y" by simp
      from sendOnlineUsers_frame [OF y] sendOnlineUsers_ids [OF y] Unlock_frame [OF u]
      show ?thesis by (intro fin_ok) simp_all
    next
      case (Panics p)
      with ret fin show ?thesis by simp
    next
      case (Blocks y)
      with ret fin have "y = w'" by simp
      with Blocks have y: "final (sendOnlineUsers c i) = Some w'" by simp
      from sendOnlineUsers_frame [OF y] sendOnlineUsers_ids [OF y]
      show ?thesis by (intro fin_ok) simp_all
    qed
  qed
qed

lemma firstUser_installed:
  "firstUser (DB w) (UserID (heap w c)) = Inr u \<Longrightarrow>
     \<exists>u'. firstUser (DB (installed c w)) (UserID (heap (installed c w) c)) = Inr u'"
  by (auto simp: installed_def Let_def firstUser_def updateUser_def SetUserOnline_def
      split: option.splits if_splits)

text \<open>Registration of a user whose row the store holds never returns.\<close>

lemma registerClient_blocks:
  assumes "mutex (hub w) = Unlocked" and "firstUser (DB w) (UserID (heap w c)) = Inr u"
  shows "\<exists>w'. registerClient c w = Blocks w' \<and> mutex (hub w') = WriteLocked \<and>
              (\<forall>c'. Send (heap w' c') = Send (heap w c'))"
proof -
  define w1 where "w1 = w\<lparr>hub := (hub w)\<lparr>mutex := WriteLocked\<rparr>\<rparr>"
  have "firstUser (DB w1) (UserID (heap w1 c)) = Inr u" using assms(2) by (simp add: w1_def)
  from firstUser_installed [OF this] obtain u' where
    u': "firstUser (DB (installed c w1)) (UserID (heap (installed c w1) c)) = Inr u'" by blast
  have locked: "mutex (hub (installed c w1)) = WriteLocked" by (simp add: installed_hub w1_def)
  have "notifyUserJoined c (installed c w1) = Blocks (installed c w1)"
    using u' locked by (simp add: notifyUserJoined_def broadcastToRoom_def RLock_def Let_def)
  then have "registerClient c w = Blocks (installed c w1)"
    using assms(1) by (simp add: registerClient_def Lock_unlocked w1_def registerBody_installed)
  moreover have "\<forall>c'. Send (heap (installed c w1) c') = Send (heap w c')"
    by (simp add: installed_hub w1_def)
  ultimately show ?thesis using locked by blast
qed

lemma removed_hub:
  "clients (hub (removed c ch w)) = clients (hub w) - {c}"
  "mutex (hub (removed c ch w)) = mutex (hub w)"
  "heap (removed c ch w) = (heap w)(c := (heap w c)\<lparr>Send := ch\<rparr>)"
  by (auto simp: removed_def Let_def cache_frame setSend_def split: option.splits)

text \<open>
  Unregistering a registered client never returns: the maps are updated and the queue
  is closed, but no frame reaches any queue.
\<close>

lemma unregisterClient_blocks:
  assumes "mutex (hub w) = Unlocked" and "c \<in> clients (hub w)" and "\<not> closed (Send (heap w c))"
  shows "\<exists>w'. unregisterClient c w = Blocks w' \<and> mutex (hub w') = WriteLocked \<and>
              c \<notin> clients (hub w') \<and> closed (Send (heap w' c)) \<and>
              (\<forall>c'. buf (Send (heap w' c')) = buf (Send (heap w c')))"
proof -
  define w1 where "w1 = w\<lparr>hub := (hub w)\<lparr>mutex := WriteLocked\<rparr>\<rparr>"
  define ch where "ch = (Send (heap w c))\<lparr>closed := True\<rparr>"
  have cc: "closeChan (Send (heap w1 c)) = Some ch"
    using assms(3) by (simp add: closeChan_def w1_def ch_def)
  have locked: "mutex (hub (removed c ch w1)) = WriteLocked" by (simp add: removed_hub w1_def)
  have "unregisterBody c w1 = Blocks (removed c ch w1)"
    using assms(2) cc notifyUserLeft_locked [OF locked]
    by (simp add: unregisterBody_removed w1_def)
  then have "unregisterClient c w = Blocks (removed c ch w1)"
    using assms(1) by (simp add: unregisterClient_def Lock_unlocked w1_def)
  moreover have "c \<notin> clients (hub (removed c ch w1))" by (simp add: removed_hub)
  moreover have "closed (Send (heap (removed c ch w1) c))" by (simp add: removed_hub ch_def)
  moreover have "\<forall>c'. buf (Send (heap (removed c ch w1) c')) = buf (Send (heap w c'))"
    by (simp add: removed_hub ch_def w1_def)
  ultimately show ?thesis using locked by blast
qed

text \<open>The guard on \<^verbatim>\<open>h.clients\<close>: unregistering an absent client changes nothing.\<close>

lemma unregisterBody_absent: "c \<notin> clients (hub w) \<Longrightarrow> unregisterBody c w = Returns w"
  by (simp add: unregisterBody_def)

subsection \<open>What a broadcast delivers\<close>

lemma evict_frame:
  "evict r c w = Returns w1 \<Longrightarrow>
     DB w1 = DB w \<and> RedisClient w1 = RedisClient w \<and> (\<forall>c'. c' \<noteq> c \<longrightarrow> heap w1 c' = heap w c')"
  by (auto simp: evict_def setSend_def Let_def split: option.splits)

lemma fanout_frame:
  "final (fanout r f room w) = Some w' \<Longrightarrow>
     DB w' = DB w \<and> RedisClient w' = RedisClient w \<and>
     (\<forall>c'. c' \<notin> set room \<longrightarrow> heap w' c' = heap w c')"
proof (induction room arbitrary: w)
  case Nil
  then show ?case by simp
next
  case (Cons c room)
  show ?case
  proof (cases "trySend (Send (heap w c)) f")
    case (Sent ch)
    with Cons.prems have "final (fanout r f room (setSend c ch w)) = Some w'" by simp
    from Cons.IH [OF this] show ?thesis by (simp add: setSend_def)
  next
    case WouldBlock
    with Cons.prems have fin: "final (thenDo (evict r c w) (fanout r f room)) = Some w'" by simp
    with evict_cases [of r c w]
    obtain w1 where ev: "evict r c w = Returns w1" and rest: "final (fanout r f room w1) = Some w'"
      by auto
    from Cons.IH [OF rest] evict_frame [OF ev] show ?thesis by simp
  next
    case SendPanics
    with Cons.prems show ?thesis by simp
  qed
qed

lemma fanout_delivers:
  "final (fanout r f room w) = Some w' \<Longrightarrow> distinct room \<Longrightarrow> c' \<in> set room \<Longrightarrow>
   length (buf (Send (heap w c'))) < sendCap \<Longrightarrow>
     buf (Send (heap w' c')) = buf (Send (heap w c')) @ [f]"
proof (induction room arbitrary: w)
  case Nil
  then show ?case by simp
next
  case (Cons c room)
  show ?case
  proof (cases "c' = c")
    case True
    with Cons.prems have notin: "c' \<notin> set room" by simp
    show ?thesis
    proof (cases "closed (Send (heap w c))")
      case True
      with Cons.prems(1) show ?thesis by (simp add: trySend_def)
    next
      case False
      with Cons.prems(1,4) \<open>c' = c\<close>
      have "final (fanout r f room (setSend c ((Send (heap w c))\<lparr>buf := buf (Send (heap w c)) @ [f]\<rparr>) w)) = Some w'"
        by (simp add: trySend_def)
      from fanout_frame [OF this] notin \<open>c' = c\<close> show ?thesis
        by (simp add: setSend_def)
    qed
  next
    case False
    with Cons.prems have mem: "c' \<in> set room" and dist: "distinct room" by simp_all
    show ?thesis
    proof (cases "trySend (Send (heap w c)) f")
      case (Sent ch)
      with Cons.prems have fin: "final (fanout r f room (setSend c ch w)) = Some w'" by simp
      have "length (buf (Send (heap (setSend c ch w) c'))) < sendCap"
        using False Cons.prems(4) by (simp add: setSend_def)
      from Cons.IH [OF fin dist mem this] False show ?thesis by (simp add: setSend_def)
    next
      case WouldBlock
      with Cons.prems have fin: "final (thenDo (evict r c w) (fanout r f room)) = Some w'" by simp
      with evict_cases [of r c w]
      obtain w1 where ev: "evict r c w = Returns w1" and rest: "final (fanout r f room w1) = Some w'"
        by auto
      from evict_frame [OF ev] False have same: "heap w1 c' = heap w c'" by simp
      with Cons.prems(4) have "length (buf (Send (heap w1 c'))) < sendCap" by simp
      from Cons.IH [OF rest dist mem this] same show ?thesis by simp
    next
      case SendPanics
      with Cons.prems show ?thesis by simp
    qed
  qed
qed

lemma fanout_cases: "(\<exists>w'. fanout r f room w = Returns w') \<or> (\<exists>p. fanout r f room w = Panics p)"
proof (induction room arbitrary: w)
  case Nil
  then show ?case by simp
next
  case (Cons c room)
  show ?case
  proof (cases "trySend (Send (heap w c)) f")
    case (Sent ch)
    with Cons.IH [of "setSend c ch w"] show ?thesis by simp
  next
    case WouldBlock
    from evict_cases [of r c w] show ?thesis
    proof
      assume "\<exists>w1. evict r c w = Returns w1"
      then obtain w1 where "evict r c w = Returns w1" by blast
      with WouldBlock Cons.IH [of w1] show ?thesis by simp
    next
      assume "evict r c w = Panics CloseOfClosedChannel"
      with WouldBlock show ?thesis by simp
    qed
  next
    case SendPanics
    then show ?thesis by simp
  qed
qed

lemma final_thenDo_cases:
  "final (thenDo m f) = Some w' \<Longrightarrow>
     (\<exists>w1. m = Returns w1 \<and> final (f w1) = Some w') \<or> m = Blocks w'"
  by (cases m) auto

lemma RLock_frame:
  "final (RLock w) = Some w1 \<Longrightarrow> DB w1 = DB w \<and> RedisClient w1 = RedisClient w"
  by (auto simp: RLock_def split: rwmutex.splits)

lemma RUnlock_frame:
  "final (RUnlock w) = Some w1 \<Longrightarrow> DB w1 = DB w \<and> RedisClient w1 = RedisClient w"
  by (auto simp: RUnlock_def split: rwmutex.splits if_splits)

lemma broadcastToRoom_frame:
  assumes "final (broadcastToRoom r f w) = Some w'"
  shows "DB w' = DB w \<and> RedisClient w' = RedisClient w"
proof -
  let ?body = "\<lambda>w1. thenDo (case rooms (hub w1) r of None \<Rightarrow> Returns w1
                              | Some room \<Rightarrow> fanout r f room w1) RUnlock"
  from assms have fin: "final (thenDo (RLock w) ?body) = Some w'"
    by (simp add: broadcastToRoom_def)
  from final_thenDo_cases [OF fin] show ?thesis
  proof
    assume "RLock w = Blocks w'"
    then have "final (RLock w) = Some w'" by simp
    then show ?thesis by (rule RLock_frame)
  next
    assume "\<exists>w1. RLock w = Returns w1 \<and> final (?body w1) = Some w'"
    then obtain w1 where rl: "RLock w = Returns w1" and b: "final (?body w1) = Some w'" by blast
    from rl have "final (RLock w) = Some w1" by simp
    then have f1: "DB w1 = DB w \<and> RedisClient w1 = RedisClient w" by (rule RLock_frame)
    from final_thenDo_cases [OF b] show ?thesis
    proof
      assume blk: "(case rooms (hub w1) r of None \<Rightarrow> Returns w1
                    | Some room \<Rightarrow> fanout r f room w1) = Blocks w'"
      show ?thesis
      proof (cases "rooms (hub w1) r")
        case None
        with blk show ?thesis by simp
      next
        case (Some room)
        with blk have "fanout r f room w1 = Blocks w'" by simp
        with fanout_cases [of r f room w1] show ?thesis by auto
      qed
    next
      assume "\<exists>w2. (case rooms (hub w1) r of None \<Rightarrow> Returns w1
                    | Some room \<Rightarrow> fanout r f room w1) = Returns w2 \<and> final (RUnlock w2) = Some w'"
      then obtain w2 where m: "(case rooms (hub w1) r of None \<Rightarrow> Returns w1
                    | Some room \<Rightarrow> fanout r f room w1) = Returns w2"
        and ru: "final (RUnlock w2) = Some w'" by blast
      have "DB w2 = DB w1 \<and> RedisClient w2 = RedisClient w1"
      proof (cases "rooms (hub w1) r")
        case None
        with m show ?thesis by simp
      next
        case (Some room)
        with m have "final (fanout r f room w1) = Some w2" by simp
        from fanout_frame [OF this] show ?thesis by simp
      qed
      with RUnlock_frame [OF ru] f1 show ?thesis by simp
    qed
  qed
qed

lemma broadcastToRoom_delivers:
  assumes "final (broadcastToRoom r f w) = Some w'" and "mutex (hub w) = Unlocked"
    and "rooms (hub w) r = Some room" and "distinct room" and "c' \<in> set room"
    and "length (buf (Send (heap w c'))) < sendCap"
  shows "buf (Send (heap w' c')) = buf (Send (heap w c')) @ [f]"
proof -
  define w1 where "w1 = w\<lparr>hub := (hub w)\<lparr>mutex := ReadLocked 1\<rparr>\<rparr>"
  have rl: "RLock w = Returns w1" using assms(2) by (simp add: RLock_def w1_def)
  have room: "rooms (hub w1) r = Some room" using assms(3) by (simp add: w1_def)
  from assms(1) rl room have fin: "final (thenDo (fanout r f room w1) RUnlock) = Some w'"
    by (simp add: broadcastToRoom_def)
  from fanout_cases [of r f room w1] fin obtain w2 where
    fo: "fanout r f room w1 = Returns w2" and ru: "final (RUnlock w2) = Some w'"
    by auto
  from fo have "final (fanout r f room w1) = Some w2" by simp
  from fanout_delivers [OF this assms(4,5)] assms(6)
  have "buf (Send (heap w2 c')) = buf (Send (heap w c')) @ [f]" by (simp add: w1_def)
  moreover from ru have "heap w' = heap w2"
    by (auto simp: RUnlock_def split: rwmutex.splits if_splits)
  ultimately show ?thesis by simp
qed

text \<open>
  Claim C4, as the code has it. \<^verbatim>\<open>handleChatMessage\<close> never looks at the content.
  For a sender who is a member of the client's room, whatever the content is (empty
  included), a text record with that content is appended to the messages, and when a
  cache answers, the record is pushed to the room's recent list. What happens to the
  \<^verbatim>\<open>message\<close> frame depends on the Hub. When the Hub's lock is free, every client
  in the room set (a set: its key list has no repetition) whose queue has space gets the
  frame. When the write lock is held, which is the state in which a registration or an
  unregistration waits for good, the broadcast command waits as well: the record is
  stored and cached, and no queue of any client changes.
\<close>

theorem handleChatMessage_any_content:
  assumes "IsMember (DB w) (RoomID (heap w c)) (UserID (heap w c))"
    and "final (handleChatMessage c m w) = Some w'"
  shows "\<exists>msg author.
           messageRows (DB w') = messageRows (DB w) @ [msg] \<and>
           msgContent msg = wsContent m \<and> msgType msg = MessageTypeText \<and>
           msgRoomID msg = RoomID (heap w c) \<and> msgUserID msg = UserID (heap w c) \<and>
           (\<forall>rd. RedisClient w = Some rd \<and> redisUp rd \<longrightarrow>
              (\<exists>rd'. RedisClient w' = Some rd' \<and>
                 roomMessages rd' (RoomID (heap w c)) =
                   take 100 (ChatData msg author # roomMessages rd (RoomID (heap w c))))) \<and>
           (\<forall>room c'. mutex (hub w) = Unlocked \<and> rooms (hub w) (RoomID (heap w c)) = Some room \<and>
              distinct room \<and> c' \<in> set room \<and> length (buf (Send (heap w c'))) < sendCap \<longrightarrow>
                buf (Send (heap w' c')) =
                  buf (Send (heap w c')) @
                    [\<lparr>wsType = ''message'', wsRoomID = RoomID (heap w c), wsContent = [],
                      wsData = ChatData msg author\<rparr>]) \<and>
           (mutex (hub w) = WriteLocked \<longrightarrow>
              handleChatMessage c m w = Blocks w' \<and> heap w' = heap w)"
proof -
  define cl where "cl = heap w c"
  from assms(1) have up: "storeUp (DB w)" by (simp add: IsMember_def)
  from assms(1) have "\<exists>rm. firstMember (DB w) (RoomID cl) (UserID cl) = Inr rm"
    by (auto simp: IsMember_def firstMember_def cl_def split: list.splits)
  then obtain rm where fm: "firstMember (DB w) (RoomID cl) (UserID cl) = Inr rm" by blast
  define msg where "msg = \<lparr>msgID = Suc (fold max (map msgID (messageRows (DB w))) 0),
      msgRoomID = RoomID cl, msgUserID = UserID cl, msgType = MessageTypeText,
      msgContent = wsContent m, msgCreatedAt = now w\<rparr>"
  define db' where "db' = (DB w)\<lparr>messageRows := messageRows (DB w) @ [msg]\<rparr>"
  define author where "author = (case firstUser db' (msgUserID msg) of Inl err \<Rightarrow> None | Inr u \<Rightarrow> Some u)"
  define json where "json = ChatData msg author"
  define w2 where "w2 = snd (CacheMessage (RoomID cl) json (w\<lparr>DB := db'\<rparr>))"
  define fr where "fr = \<lparr>wsType = ''message'', wsRoomID = RoomID cl, wsContent = [], wsData = json\<rparr>"
  have cm: "createMessage (now w) \<lparr>msgID = 0, msgRoomID = RoomID cl, msgUserID = UserID cl,
              msgType = MessageTypeText, msgContent = wsContent m, msgCreatedAt = 0\<rparr> (DB w)
            = Inr (db', msg)"
    using up by (simp add: createMessage_def Let_def db'_def msg_def)
  have eq: "handleChatMessage c m w = broadcastToRoom (RoomID cl) fr w2"
    unfolding handleChatMessage_def
    by (simp add: Let_def cl_def [symmetric] fm cm BroadcastMessage_def
        author_def [symmetric] json_def [symmetric] w2_def [symmetric] fr_def [symmetric])
  with assms(2) have fin: "final (broadcastToRoom (RoomID cl) fr w2) = Some w'" by simp
  have w2: "DB w2 = db'" "hub w2 = hub w" "heap w2 = heap w"
    by (simp_all add: w2_def CacheMessage_def split: option.splits)
  have cache: "\<forall>rd. RedisClient w = Some rd \<and> redisUp rd \<longrightarrow>
              (\<exists>rd'. RedisClient w2 = Some rd' \<and>
                 roomMessages rd' (RoomID cl) = take 100 (json # roomMessages rd (RoomID cl)))"
    by (auto simp: w2_def CacheMessage_def)
  from broadcastToRoom_frame [OF fin] have keep: "DB w' = db'" "RedisClient w' = RedisClient w2"
    by (simp_all add: w2)
  have deliver: "\<forall>room c'. mutex (hub w) = Unlocked \<and> rooms (hub w) (RoomID cl) = Some room \<and>
              distinct room \<and> c' \<in> set room \<and> length (buf (Send (heap w c'))) < sendCap \<longrightarrow>
                buf (Send (heap w' c')) = buf (Send (heap w c')) @ [fr]"
    using broadcastToRoom_delivers [OF fin] by (simp add: w2)
  have blocked: "mutex (hub w) = WriteLocked \<longrightarrow>
              handleChatMessage c m w = Blocks w' \<and> heap w' = heap w"
  proof
    assume "mutex (hub w) = WriteLocked"
    then have "broadcastToRoom (RoomID cl) fr w2 = Blocks w2"
      by (simp add: broadcastToRoom_def RLock_def w2)
    with eq have b: "handleChatMessage c m w = Blocks w2" by simp
    with assms(2) have "w' = w2" by simp
    with b w2(3) show "handleChatMessage c m w = Blocks w' \<and> heap w' = heap w"
      by simp
  qed
  show ?thesis
    apply (rule exI [of _ msg])
    apply (rule exI [of _ author])
    using keep cache deliver blocked
    apply (simp add: db'_def msg_def cl_def fr_def json_def)
    done
qed

subsection \<open>A queue that fills up\<close>

lemma broadcast_fills:
  assumes "filling r c n w" and "n < sendCap"
  shows "\<exists>w'. broadcastToRoom r f w = Returns w' \<and> filling r c (Suc n) w'"
  using assms
  by (simp add: filling_def broadcastToRoom_def RLock_def RUnlock_def trySend_def setSend_def)

lemma Run_fills:
  "filling r c n w \<Longrightarrow> n + k \<le> sendCap \<Longrightarrow>
     \<exists>w'. Run (replicate k (Broadcast r f)) w = Returns w' \<and> filling r c (n + k) w'"
proof (induction k arbitrary: n w)
  case 0
  then show ?case by simp
next
  case (Suc k)
  from Suc.prems have "n < sendCap" by simp
  from broadcast_fills [OF Suc.prems(1) this, of f] obtain w1 where
    b: "broadcastToRoom r f w = Returns w1" and f1: "filling r c (Suc n) w1" by blast
  from Suc.prems have "Suc n + k \<le> sendCap" by simp
  from Suc.IH [OF f1 this] b show ?case by simp
qed

lemma broadcast_empties:
  assumes "filling r c sendCap w"
  shows "\<exists>w'. broadcastToRoom r f w = Returns w' \<and> rooms (hub w') r = Some [] \<and>
              clients (hub w') = {}"
  using assms
  by (simp add: filling_def broadcastToRoom_def RLock_def RUnlock_def trySend_def setSend_def
      evict_def closeChan_def mapDelete_def Let_def)

lemma Run_append: "Run (xs @ ys) w = thenDo (Run xs w) (Run ys)"
proof (induction xs arbitrary: w)
  case Nil
  then show ?case by simp
next
  case (Cons x xs)
  then show ?case by (cases "Run_step x w") simp_all
qed

lemma register_alone:
  "\<exists>w1. Run_step (Register 2) world0 = Returns w1 \<and> filling 1 2 1 w1"
  by (simp add: filling_def registerClient_def registerBody_def Lock_def Unlock_def world0_def
      NewHub_def heap0_def openQueue_def mapSet_def SetUserOnline_def updateUser_def store0_def
      notifyUserJoined_def firstUser_def sendOnlineUsers_def GetOnlineUsers_def trySend_def
      sendCap_def setSend_def Let_def)

text \<open>
  Claim C6 at a run of the Hub. Client 2 registers alone in room 1 and never reads; the
  registration puts one frame on its queue, 255 broadcasts fill it, and the next
  broadcast evicts the client. The room entry stays in \<open>rooms\<close>, empty.
\<close>

theorem empty_room_reached:
  "(case Run (Register 2 # replicate 256 (Broadcast 1 (frame ''message'' 1 []))) world0 of
      Returns w' \<Rightarrow> rooms (hub w') 1 = Some [] \<and> clients (hub w') = {}
    | Panics p \<Rightarrow> False
    | Blocks w' \<Rightarrow> False)"
proof -
  let ?b = "Broadcast 1 (frame ''message'' 1 [])"
  from register_alone obtain w1 where r: "Run_step (Register 2) world0 = Returns w1"
    and f1: "filling 1 2 1 w1" by blast
  have "1 + 255 \<le> sendCap" by (simp add: sendCap_def)
  from Run_fills [OF f1 this, of "frame ''message'' 1 []"] obtain w2 where
    fill: "Run (replicate 255 ?b) w1 = Returns w2" and f2: "filling 1 2 sendCap w2"
    by (auto simp: sendCap_def)
  from broadcast_empties [OF f2, of "frame ''message'' 1 []"] obtain w3 where
    last: "broadcastToRoom 1 (frame ''message'' 1 []) w2 = Returns w3"
    and empty: "rooms (hub w3) 1 = Some []" and gone: "clients (hub w3) = {}" by blast
  have "(256::nat) = Suc 255" by simp
  then have "replicate 256 ?b = replicate (Suc 255) ?b" by (simp only:)
  also have "\<dots> = replicate 255 ?b @ [?b]"
    by (simp only: replicate_Suc replicate_append_same)
  finally have eq: "replicate 256 ?b = replicate 255 ?b @ [?b]" .
  have "Run (Register 2 # replicate 256 ?b) world0 = Run (replicate 255 ?b @ [?b]) w1"
    by (simp only: Run.simps r thenDo.simps eq)
  also have "\<dots> = Run [?b] w2"
    by (simp only: Run_append fill thenDo.simps)
  also have "\<dots> = Returns w3"
    by (simp only: Run.simps Run_step.simps last thenDo.simps)
  finally have "Run (Register 2 # replicate 256 ?b) world0 = Returns w3" .
  with empty gone show ?thesis by simp
qed

subsection \<open>The scenarios, evaluated\<close>

lemmas hub_eval = registerClient_def registerBody_def unregisterClient_def unregisterBody_def
  broadcastToRoom_def notifyUserJoined_def notifyUserLeft_def sendOnlineUsers_def
  Lock_def Unlock_def RLock_def RUnlock_def trySend_def closeChan_def sendCap_def setSend_def
  evict_def mapSet_def mapDelete_def SetUserOnline_def SetUserOffline_def GetOnlineUsers_def
  updateUser_def firstUser_def findUsers_def Let_def

lemmas scene_eval = world0_def NewHub_def heap0_def openQueue_def store0_def members0_def
  chatRoom_def slowRoom_def fullQueue_def frame_def

text \<open>\<open>chatRoom\<close> is the registry that two registrations from \<open>world0\<close> build.\<close>

lemma chatRoom_reached:
  "(case Run [Register 0, Register 2] world0 of
      Returns w' \<Rightarrow> hub w' = hub chatRoom \<and> DB w' = DB chatRoom \<and>
                    RedisClient w' = RedisClient chatRoom
    | Panics p \<Rightarrow> False
    | Blocks w' \<Rightarrow> False)"
  by (simp add: hub_eval scene_eval insert_commute)

text \<open>
  Claim C3 at a concrete broadcast. Clients 0 and 2 are in room 1 and the queue of
  client 2 is full. The broadcast closes that queue and deletes client 2 from
  \<open>clients\<close> and from the room set, and client 0 gets the frame. But the user index
  still maps user 3 to the evicted client, the store and the cache are untouched, and
  no \<^verbatim>\<open>user_left\<close> frame is queued: the queue of client 0 holds the broadcast frame
  and nothing else.
\<close>

theorem slow_consumer_eviction:
  "(case broadcastToRoom 1 (frame ''message'' 1 ''hi'') slowRoom of
      Returns w' \<Rightarrow>
        closed (Send (heap w' 2)) \<and> 2 \<notin> clients (hub w') \<and> rooms (hub w') 1 = Some [0] \<and>
        users (hub w') 3 = Some 2 \<and>
        buf (Send (heap w' 0)) = [frame ''message'' 1 ''hi''] \<and>
        DB w' = DB slowRoom \<and> RedisClient w' = RedisClient slowRoom
    | Panics p \<Rightarrow> False
    | Blocks w' \<Rightarrow> False)"
  by (simp add: hub_eval scene_eval)

text \<open>
  Claim C5 at a concrete run. Clients 0 and 2 are in room 1 and client 0 is
  unregistered twice in succession. The first \<^verbatim>\<open>unregisterClient\<close> takes the write
  lock, removes the client from the maps, closes its queue, and then waits forever in
  \<^verbatim>\<open>broadcastToRoom\<close> for the read lock: the run ends blocked, the second command is
  never taken, and the queue of client 2 holds no \<^verbatim>\<open>user_left\<close> frame.
\<close>

theorem unregister_never_notifies:
  "(case Run [Unregister 0, Unregister 0] chatRoom of
      Returns w' \<Rightarrow> False
    | Panics p \<Rightarrow> False
    | Blocks w' \<Rightarrow>
        mutex (hub w') = WriteLocked \<and> 0 \<notin> clients (hub w') \<and> rooms (hub w') 1 = Some [2] \<and>
        closed (Send (heap w' 0)) \<and> buf (Send (heap w' 2)) = [])"
  by (simp add: hub_eval scene_eval)

text \<open>
  The claim C2 as written fails: user 1 attaches with client 0 to room 1 and then with
  client 1 to room 2. Both clients end up registered, the older one still in its room
  set with its queue open, holding the \<^verbatim>\<open>online_users\<close> frame of its own
  registration and no \<^verbatim>\<open>user_left\<close>.
\<close>

theorem duplicate_attach_counterexample:
  "(case Run [Register 0, Register 1] world0 of
      Returns w' \<Rightarrow>
        0 \<in> clients (hub w') \<and> 1 \<in> clients (hub w') \<and>
        UserID (heap w' 0) = 1 \<and> UserID (heap w' 1) = 1 \<and>
        rooms (hub w') 1 = Some [0] \<and> rooms (hub w') 2 = Some [1] \<and>
        \<not> closed (Send (heap w' 0)) \<and> map wsType (buf (Send (heap w' 0))) = [''online_users'']
    | Panics p \<Rightarrow> False
    | Blocks w' \<Rightarrow> False)"
  by (simp add: hub_eval scene_eval)

text \<open>
  The theorem at the second attach of user 1 (client 1) to the registry \<open>chatRoom\<close>,
  where client 0 of the same user is registered.
\<close>

theorem registerClient_installs_witness:
  "\<exists>w'. final (registerClient 1 chatRoom) = Some w' \<and>
      UserID (heap chatRoom 1) = UserID (heap chatRoom 0) \<and>
      RoomID (heap chatRoom 1) = 2 \<and> rooms (hub chatRoom) 2 = None \<and>
      clients (hub w') = insert 1 (clients (hub chatRoom)) \<and>
      users (hub w') = (users (hub chatRoom))(UserID (heap chatRoom 1) \<mapsto> 1) \<and>
      heap w' 0 = heap chatRoom 0 \<and>
      (\<exists>room'. rooms (hub w') 1 = Some room' \<and> set [0, 2] \<subseteq> set room') \<and>
      RoomID (heap w' 1) = 2 \<and>
      (\<exists>room'. rooms (hub w') 2 = Some room' \<and> 1 \<in> set room' \<and> set room' = {1}) \<and>
      rooms (hub w') 1 = rooms (hub chatRoom) 1"
proof -
  have m: "mutex (hub chatRoom) = Unlocked" by (simp add: chatRoom_def)
  have "\<exists>w'. final (registerClient 1 chatRoom) = Some w'"
    by (simp add: hub_eval scene_eval)
  then obtain w' where fin: "final (registerClient 1 chatRoom) = Some w'" by blast
  have r: "rooms (hub chatRoom) 1 = Some [0, 2]" by (simp add: chatRoom_def)
  have r2: "rooms (hub chatRoom) 2 = None" by (simp add: chatRoom_def)
  have u: "UserID (heap chatRoom 1) = UserID (heap chatRoom 0)" by (simp add: scene_eval)
  have rid: "RoomID (heap chatRoom 1) = 2" by (simp add: scene_eval)
  note inst = registerClient_installs [OF m fin]
  from inst r have a: "\<exists>room'. rooms (hub w') 1 = Some room' \<and> set [0, 2] \<subseteq> set room'"
    by blast
  from inst have b: "heap w' 0 = heap chatRoom 0" by simp
  from inst have "\<exists>room'. rooms (hub w') (RoomID (heap chatRoom 1)) = Some room' \<and> 1 \<in> set room' \<and>
            set room' = insert 1 (case rooms (hub chatRoom) (RoomID (heap chatRoom 1)) of
                                    None \<Rightarrow> {} | Some room \<Rightarrow> set room)"
    by blast
  then have c: "\<exists>room'. rooms (hub w') 2 = Some room' \<and> 1 \<in> set room' \<and> set room' = {1}"
    unfolding rid r2 by simp
  from inst have "\<forall>r. r \<noteq> RoomID (heap chatRoom 1) \<longrightarrow> rooms (hub w') r = rooms (hub chatRoom) r"
    by blast
  then have d: "rooms (hub w') 1 = rooms (hub chatRoom) 1" unfolding rid by simp
  from inst have "RoomID (heap w' 1) = RoomID (heap chatRoom 1)" by blast
  then have e: "RoomID (heap w' 1) = 2" unfolding rid .
  from inst have f: "clients (hub w') = insert 1 (clients (hub chatRoom))"
    "users (hub w') = (users (hub chatRoom))(UserID (heap chatRoom 1) \<mapsto> 1)" by simp_all
  show ?thesis using fin u rid r2 a b c d e f
    by (intro exI [of _ w']) simp
qed

text \<open>
  The claim C1 as written fails twice. After client 0 has registered in room 1, a
  \<^verbatim>\<open>join_room\<close> frame for room 2 sets its \<^verbatim>\<open>RoomID\<close> to 2 while the registry keeps
  it under room 1 and has no entry for room 2; a broadcast to room 1 then still reaches
  it. And after a second attach of user 1, client 0 is registered while the user index
  of its user points at client 1.
\<close>

theorem registry_consistent_counterexample:
  "(case Run [Register 0] world0 of
      Returns w1 \<Rightarrow>
        0 \<in> clients (hub (handleJoinRoom 0 (frame ''join_room'' 2 []) w1)) \<and>
        RoomID (heap (handleJoinRoom 0 (frame ''join_room'' 2 []) w1) 0) = 2 \<and>
        rooms (hub (handleJoinRoom 0 (frame ''join_room'' 2 []) w1)) 2 = None \<and>
        rooms (hub (handleJoinRoom 0 (frame ''join_room'' 2 []) w1)) 1 = Some [0] \<and>
        \<not> roomIndexed (handleJoinRoom 0 (frame ''join_room'' 2 []) w1) \<and>
        (case broadcastToRoom 1 (frame ''message'' 1 ''hi'')
                (handleJoinRoom 0 (frame ''join_room'' 2 []) w1) of
           Returns w3 \<Rightarrow>
             RoomID (heap w3 0) = 2 \<and>
             map wsType (buf (Send (heap w3 0))) = [''online_users'', ''message'']
         | Panics p \<Rightarrow> False
         | Blocks w3 \<Rightarrow> False)
    | Panics p \<Rightarrow> False
    | Blocks w1 \<Rightarrow> False) \<and>
   (case Run [Register 0, Register 1] world0 of
      Returns w2 \<Rightarrow> 0 \<in> clients (hub w2) \<and> users (hub w2) (UserID (heap w2 0)) = Some 1 \<and>
                    \<not> userIndexed w2
    | Panics p \<Rightarrow> False
    | Blocks w2 \<Rightarrow> False)"
  by (simp add: hub_eval scene_eval handleJoinRoom_def firstRoom_def firstMember_def
      roomIndexed_def userIndexed_def)

text \<open>
  The theorem at the state reached by registering clients 0 and 2, of different users.
\<close>

theorem registry_consistent_witness:
  "\<exists>w. reachable False w \<and> 0 \<in> clients (hub w) \<and> 2 \<in> clients (hub w) \<and>
       roomIndexed w \<and> userIndexed w"
proof -
  have "\<exists>w1 w2. Run_step (Register 0) world0 = Returns w1 \<and>
          admissible False (Register 2) w1 \<and> Run_step (Register 2) w1 = Returns w2 \<and>
          0 \<in> clients (hub w2) \<and> 2 \<in> clients (hub w2)"
    by (simp add: hub_eval scene_eval admissible_def)
  then obtain w1 w2 where s1: "Run_step (Register 0) world0 = Returns w1"
    and a2: "admissible False (Register 2) w1"
    and s2: "Run_step (Register 2) w1 = Returns w2"
    and mem: "0 \<in> clients (hub w2)" "2 \<in> clients (hub w2)" by blast
  have r0: "reachable False world0"
    by (rule reachable.start) (simp add: world0_def)
  have a1: "admissible False (Register 0) world0"
    by (simp add: admissible_def world0_def NewHub_def)
  from s1 have "final (Run_step (Register 0) world0) = Some w1" by simp
  with r0 a1 have r1: "reachable False w1" by (rule reachable.command)
  from s2 have "final (Run_step (Register 2) w1) = Some w2" by simp
  with r1 a2 have r2: "reachable False w2" by (rule reachable.command)
  from registry_consistent [OF r2] r2 mem show ?thesis by blast
qed

text \<open>
  The claim C4 as written fails: a member's \<^verbatim>\<open>message\<close> frame with empty content
  is stored as a record with empty content, pushed to the cache and queued for both
  clients of the room; content of two blanks is stored likewise.
\<close>

theorem empty_content_counterexample:
  "(case handleChatMessage 0 (frame ''message'' 1 []) memberChat of
      Returns w' \<Rightarrow>
        map msgContent (messageRows (DB w')) = [[]] \<and>
        (case RedisClient w' of None \<Rightarrow> False | Some rd \<Rightarrow> length (roomMessages rd 1) = 1) \<and>
        map wsType (buf (Send (heap w' 0))) = [''message''] \<and>
        map wsType (buf (Send (heap w' 2))) = [''message'']
    | Panics p \<Rightarrow> False
    | Blocks w' \<Rightarrow> False) \<and>
   (case handleChatMessage 0 (frame ''message'' 1 ''  '') memberChat of
      Returns w' \<Rightarrow> map msgContent (messageRows (DB w')) = [''  '']
    | Panics p \<Rightarrow> False
    | Blocks w' \<Rightarrow> False)"
  by (simp add: hub_eval scene_eval handleChatMessage_def firstMember_def createMessage_def
      CacheMessage_def BroadcastMessage_def memberChat_def emptyRedis_def alice_def)

text \<open>
  The theorem at a frame with content \<open>hi\<close> from client 0, whose user is a member of
  room 1: with the lock free client 2 gets the frame; with the write lock held the
  record is stored and every queue stays as it was.
\<close>

theorem handleChatMessage_any_content_witness:
  "(\<exists>w' msg author.
      final (handleChatMessage 0 (frame ''message'' 1 ''hi'') memberChat) = Some w' \<and>
      messageRows (DB w') = messageRows (DB memberChat) @ [msg] \<and> msgContent msg = ''hi'' \<and>
      buf (Send (heap w' 2)) = buf (Send (heap memberChat 2)) @
        [\<lparr>wsType = ''message'', wsRoomID = 1, wsContent = [],
          wsData = ChatData msg author\<rparr>]) \<and>
   (\<exists>w' msg.
      handleChatMessage 0 (frame ''message'' 1 ''hi'') blockedChat = Blocks w' \<and>
      messageRows (DB w') = messageRows (DB blockedChat) @ [msg] \<and> msgContent msg = ''hi'' \<and>
      heap w' = heap blockedChat)"
proof -
  have mem: "IsMember (DB memberChat) (RoomID (heap memberChat 0)) (UserID (heap memberChat 0))"
    by (simp add: IsMember_def memberChat_def scene_eval)
  have "\<exists>w'. final (handleChatMessage 0 (frame ''message'' 1 ''hi'') memberChat) = Some w'"
    by (simp add: hub_eval scene_eval handleChatMessage_def firstMember_def createMessage_def
      CacheMessage_def BroadcastMessage_def memberChat_def emptyRedis_def alice_def)
  then obtain w' where fin: "final (handleChatMessage 0 (frame ''message'' 1 ''hi'') memberChat) = Some w'"
    by blast
  from handleChatMessage_any_content [OF mem fin] obtain msg author where
    rows: "messageRows (DB w') = messageRows (DB memberChat) @ [msg]"
    and content: "msgContent msg = wsContent (frame ''message'' 1 ''hi'')"
    and deliver: "\<forall>room c'. mutex (hub memberChat) = Unlocked \<and>
              rooms (hub memberChat) (RoomID (heap memberChat 0)) = Some room \<and>
              distinct room \<and> c' \<in> set room \<and> length (buf (Send (heap memberChat c'))) < sendCap \<longrightarrow>
                buf (Send (heap w' c')) =
                  buf (Send (heap memberChat c')) @
                    [\<lparr>wsType = ''message'', wsRoomID = RoomID (heap memberChat 0), wsContent = [],
                      wsData = ChatData msg author\<rparr>]"
    by blast
  have pre: "mutex (hub memberChat) = Unlocked \<and>
              rooms (hub memberChat) (RoomID (heap memberChat 0)) = Some [0, 2] \<and>
              distinct [0, 2 :: cref] \<and> (2 :: cref) \<in> set [0, 2] \<and>
              length (buf (Send (heap memberChat 2))) < sendCap"
    by (simp add: memberChat_def scene_eval sendCap_def)
  with deliver have "buf (Send (heap w' 2)) =
                  buf (Send (heap memberChat 2)) @
                    [\<lparr>wsType = ''message'', wsRoomID = RoomID (heap memberChat 0), wsContent = [],
                      wsData = ChatData msg author\<rparr>]"
    by blast
  moreover have "RoomID (heap memberChat 0) = 1" by (simp add: memberChat_def scene_eval)
  ultimately have free: "\<exists>w' msg author.
      final (handleChatMessage 0 (frame ''message'' 1 ''hi'') memberChat) = Some w' \<and>
      messageRows (DB w') = messageRows (DB memberChat) @ [msg] \<and> msgContent msg = ''hi'' \<and>
      buf (Send (heap w' 2)) = buf (Send (heap memberChat 2)) @
        [\<lparr>wsType = ''message'', wsRoomID = 1, wsContent = [],
          wsData = ChatData msg author\<rparr>]"
    using fin rows content
    by (intro exI [of _ w'] exI [of _ msg] exI [of _ author]) (simp add: frame_def)
  have memb: "IsMember (DB blockedChat) (RoomID (heap blockedChat 0)) (UserID (heap blockedChat 0))"
    by (simp add: IsMember_def blockedChat_def memberChat_def scene_eval)
  have lock: "mutex (hub blockedChat) = WriteLocked" by (simp add: blockedChat_def)
  have "\<exists>v. final (handleChatMessage 0 (frame ''message'' 1 ''hi'') blockedChat) = Some v"
    by (simp add: hub_eval scene_eval handleChatMessage_def firstMember_def createMessage_def
      CacheMessage_def BroadcastMessage_def blockedChat_def memberChat_def emptyRedis_def alice_def)
  then obtain v where finb: "final (handleChatMessage 0 (frame ''message'' 1 ''hi'') blockedChat) = Some v"
    by blast
  from handleChatMessage_any_content [OF memb finb] lock obtain msgb where
    "messageRows (DB v) = messageRows (DB blockedChat) @ [msgb]"
    "msgContent msgb = wsContent (frame ''message'' 1 ''hi'')"
    "handleChatMessage 0 (frame ''message'' 1 ''hi'') blockedChat = Blocks v"
    "heap v = heap blockedChat"
    by blast
  then have "\<exists>w' msg.
      handleChatMessage 0 (frame ''message'' 1 ''hi'') blockedChat = Blocks w' \<and>
      messageRows (DB w') = messageRows (DB blockedChat) @ [msg] \<and> msgContent msg = ''hi'' \<and>
      heap w' = heap blockedChat"
    by (intro exI [of _ v] exI [of _ msgb]) (simp add: frame_def)
  with free show ?thesis by blast
qed

subsection \<open>The fan-out loop in closed form\<close>

lemma delivered_empty: "delivered r f {} w = w"
  by (cases "rooms (hub w) r") (simp_all add: delivered_def fun_upd_idem)

lemma delivered_step:
  assumes "c \<notin> S"
    and "hub w1 = (hub w)\<lparr>clients := clients (hub w) - X,
                          rooms := (case rooms (hub w) r of
                                      None \<Rightarrow> rooms (hub w)
                                    | Some stored \<Rightarrow> (rooms (hub w))(r \<mapsto> filter (\<lambda>c'. c' \<notin> X) stored))\<rparr>"
    and "X = (if hasRoom w c then {} else {c})"
    and "heap w1 = (heap w)(c := (if hasRoom w c
                        then (heap w c)\<lparr>Send := (Send (heap w c))\<lparr>buf := buf (Send (heap w c)) @ [f]\<rparr>\<rparr>
                        else (heap w c)\<lparr>Send := (Send (heap w c))\<lparr>closed := True\<rparr>\<rparr>))"
    and "DB w1 = DB w" and "RedisClient w1 = RedisClient w" and "now w1 = now w"
    and "uintOfBig w1 = uintOfBig w"
  shows "delivered r f S w1 = delivered r f (insert c S) w"
proof -
  have hr: "\<And>c'. c' \<in> S \<Longrightarrow> hasRoom w1 c' = hasRoom w c'"
    using assms(1,4) by (auto simp: hasRoom_def)
  have h: "heap (delivered r f S w1) = heap (delivered r f (insert c S) w)"
    using assms(1,4) hr by (auto simp: delivered_def fun_eq_iff)
  have s1: "clients (hub w1) - {c' \<in> S. \<not> hasRoom w1 c'}
              = clients (hub w) - {c' \<in> insert c S. \<not> hasRoom w c'}"
    using assms(1,2,3) hr by auto
  have s2: "\<And>stored. filter (\<lambda>c'. \<not> (c' \<in> S \<and> \<not> hasRoom w1 c')) (filter (\<lambda>c'. c' \<notin> X) stored)
              = filter (\<lambda>c'. \<not> (c' \<in> insert c S \<and> \<not> hasRoom w c')) stored"
    using assms(1,3) hr by (auto intro!: filter_cong)
  have c: "clients (hub (delivered r f S w1)) = clients (hub (delivered r f (insert c S) w))"
    using s1 by (simp add: delivered_def)
  have ro: "rooms (hub (delivered r f S w1)) = rooms (hub (delivered r f (insert c S) w))"
  proof (cases "rooms (hub w) r")
    case None
    then show ?thesis by (simp add: delivered_def assms(2))
  next
    case (Some stored)
    then show ?thesis using s2 [of stored] by (simp add: delivered_def assms(2))
  qed
  have us: "users (hub (delivered r f S w1)) = users (hub (delivered r f (insert c S) w))"
    "mutex (hub (delivered r f S w1)) = mutex (hub (delivered r f (insert c S) w))"
    by (simp_all add: delivered_def assms(2))
  have u: "hub (delivered r f S w1) = hub (delivered r f (insert c S) w)"
    using c ro us by (intro Hub.equality) simp_all
  have o: "DB (delivered r f S w1) = DB (delivered r f (insert c S) w)"
    "RedisClient (delivered r f S w1) = RedisClient (delivered r f (insert c S) w)"
    "now (delivered r f S w1) = now (delivered r f (insert c S) w)"
    "uintOfBig (delivered r f S w1) = uintOfBig (delivered r f (insert c S) w)"
    using assms(5,6,7,8) by (simp_all add: delivered_def)
  show ?thesis using h u o by (intro World.equality) simp_all
qed


lemma sent_world:
  assumes "hasRoom w c"
    and w1_def: "w1 = setSend c ((Send (heap w c))\<lparr>buf := buf (Send (heap w c)) @ [f]\<rparr>) w"
  shows "hub w1 = (hub w)\<lparr>clients := clients (hub w) - {},
                          rooms := (case rooms (hub w) r of
                                      None \<Rightarrow> rooms (hub w)
                                    | Some stored \<Rightarrow> (rooms (hub w))(r \<mapsto> filter (\<lambda>c'. c' \<notin> {}) stored))\<rparr>"
    and "heap w1 = (heap w)(c := (if hasRoom w c
                        then (heap w c)\<lparr>Send := (Send (heap w c))\<lparr>buf := buf (Send (heap w c)) @ [f]\<rparr>\<rparr>
                        else (heap w c)\<lparr>Send := (Send (heap w c))\<lparr>closed := True\<rparr>\<rparr>))"
    and "DB w1 = DB w" and "RedisClient w1 = RedisClient w" and "now w1 = now w"
    and "uintOfBig w1 = uintOfBig w"
proof -
  show "hub w1 = (hub w)\<lparr>clients := clients (hub w) - {},
                          rooms := (case rooms (hub w) r of
                                      None \<Rightarrow> rooms (hub w)
                                    | Some stored \<Rightarrow> (rooms (hub w))(r \<mapsto> filter (\<lambda>c'. c' \<notin> {}) stored))\<rparr>"
  proof (cases "rooms (hub w) r")
    case None
    then show ?thesis by (simp add: w1_def setSend_def)
  next
    case (Some stored)
    then have "(rooms (hub w))(r \<mapsto> stored) = rooms (hub w)" by (rule map_upd_triv)
    with Some show ?thesis by (simp add: w1_def setSend_def)
  qed
  show "heap w1 = (heap w)(c := (if hasRoom w c
                        then (heap w c)\<lparr>Send := (Send (heap w c))\<lparr>buf := buf (Send (heap w c)) @ [f]\<rparr>\<rparr>
                        else (heap w c)\<lparr>Send := (Send (heap w c))\<lparr>closed := True\<rparr>\<rparr>))"
    using assms(1) by (simp add: w1_def setSend_def)
  show "DB w1 = DB w" "RedisClient w1 = RedisClient w" "now w1 = now w"
    "uintOfBig w1 = uintOfBig w"
    by (simp_all add: w1_def setSend_def)
qed


lemma evicted_world:
  assumes "\<not> hasRoom w c"
    and w1_def: "w1 = (setSend c ((Send (heap w c))\<lparr>closed := True\<rparr>) w)
                 \<lparr>hub := (case rooms (hub w) r of
                       None \<Rightarrow> (hub w)\<lparr>clients := clients (hub w) - {c}\<rparr>
                     | Some stored \<Rightarrow> (hub w)\<lparr>clients := clients (hub w) - {c},
                          rooms := (rooms (hub w))(r \<mapsto> removeAll c stored)\<rparr>)\<rparr>"
  shows "hub w1 = (hub w)\<lparr>clients := clients (hub w) - {c},
                          rooms := (case rooms (hub w) r of
                                      None \<Rightarrow> rooms (hub w)
                                    | Some stored \<Rightarrow> (rooms (hub w))(r \<mapsto> filter (\<lambda>c'. c' \<notin> {c}) stored))\<rparr>"
    and "heap w1 = (heap w)(c := (if hasRoom w c
                        then (heap w c)\<lparr>Send := (Send (heap w c))\<lparr>buf := buf (Send (heap w c)) @ [f]\<rparr>\<rparr>
                        else (heap w c)\<lparr>Send := (Send (heap w c))\<lparr>closed := True\<rparr>\<rparr>))"
    and "DB w1 = DB w" and "RedisClient w1 = RedisClient w" and "now w1 = now w"
    and "uintOfBig w1 = uintOfBig w"
proof -
  have rm: "\<And>stored. removeAll c stored = filter (\<lambda>c'. c' \<notin> {c}) stored"
    by (simp add: removeAll_filter_not_eq) (metis)
  show "hub w1 = (hub w)\<lparr>clients := clients (hub w) - {c},
                          rooms := (case rooms (hub w) r of
                                      None \<Rightarrow> rooms (hub w)
                                    | Some stored \<Rightarrow> (rooms (hub w))(r \<mapsto> filter (\<lambda>c'. c' \<notin> {c}) stored))\<rparr>"
  proof (cases "rooms (hub w) r")
    case None
    then show ?thesis by (simp add: w1_def setSend_def)
  next
    case (Some stored)
    then show ?thesis by (simp only: w1_def rm) (simp add: setSend_def)
  qed
  show "heap w1 = (heap w)(c := (if hasRoom w c
                        then (heap w c)\<lparr>Send := (Send (heap w c))\<lparr>buf := buf (Send (heap w c)) @ [f]\<rparr>\<rparr>
                        else (heap w c)\<lparr>Send := (Send (heap w c))\<lparr>closed := True\<rparr>\<rparr>))"
    using assms(1) by (simp add: w1_def setSend_def)
  show "DB w1 = DB w" "RedisClient w1 = RedisClient w" "now w1 = now w"
    "uintOfBig w1 = uintOfBig w"
    by (simp_all add: w1_def setSend_def)
qed


lemma evict_open:
  "\<not> closed (Send (heap w c)) \<Longrightarrow>
     evict r c w =
       Returns ((setSend c ((Send (heap w c))\<lparr>closed := True\<rparr>) w)
                 \<lparr>hub := (case rooms (hub w) r of
                       None \<Rightarrow> (hub w)\<lparr>clients := clients (hub w) - {c}\<rparr>
                     | Some stored \<Rightarrow> (hub w)\<lparr>clients := clients (hub w) - {c},
                          rooms := (rooms (hub w))(r \<mapsto> removeAll c stored)\<rparr>)\<rparr>)"
  by (simp add: evict_def closeChan_def Let_def setSend_def mapDelete_def split: option.splits)

lemma fanout_delivered:
  "distinct room \<Longrightarrow> \<forall>c \<in> set room. \<not> closed (Send (heap w c)) \<Longrightarrow>
     fanout r f room w = Returns (delivered r f (set room) w)"
proof (induction room arbitrary: w)
  case Nil
  then show ?case by (simp add: delivered_empty)
next
  case (Cons c room)
  from Cons.prems have notin: "c \<notin> set room" and dist: "distinct room"
    and open_c: "\<not> closed (Send (heap w c))" by simp_all
  show ?case
  proof (cases "hasRoom w c")
    case True
    define w1 where "w1 = setSend c ((Send (heap w c))\<lparr>buf := buf (Send (heap w c)) @ [f]\<rparr>) w"
    have step: "fanout r f (c # room) w = fanout r f room w1"
      using True open_c by (simp add: trySend_def hasRoom_def w1_def)
    have "\<forall>c' \<in> set room. \<not> closed (Send (heap w1 c'))"
      using Cons.prems(2) notin by (auto simp: w1_def setSend_def)
    from Cons.IH [OF dist this]
    have ih: "fanout r f room w1 = Returns (delivered r f (set room) w1)" .
    have x: "{} = (if hasRoom w c then {} else {c})" using True by simp
    have "delivered r f (set room) w1 = delivered r f (insert c (set room)) w"
      by (rule delivered_step [OF notin sent_world(1) [OF True w1_def] x
            sent_world(2) [OF True w1_def] sent_world(3) [OF True w1_def]
            sent_world(4) [OF True w1_def] sent_world(5) [OF True w1_def]
            sent_world(6) [OF True w1_def]])
    with step ih show ?thesis by simp
  next
    case False
    define w1 where "w1 = (setSend c ((Send (heap w c))\<lparr>closed := True\<rparr>) w)
                 \<lparr>hub := (case rooms (hub w) r of
                       None \<Rightarrow> (hub w)\<lparr>clients := clients (hub w) - {c}\<rparr>
                     | Some stored \<Rightarrow> (hub w)\<lparr>clients := clients (hub w) - {c},
                          rooms := (rooms (hub w))(r \<mapsto> removeAll c stored)\<rparr>)\<rparr>"
    have ev: "evict r c w = Returns w1"
      using evict_open [OF open_c] by (simp only: w1_def)
    have step: "fanout r f (c # room) w = fanout r f room w1"
      using False open_c ev by (simp add: trySend_def hasRoom_def)
    have hp: "heap w1 = (heap w)(c := (heap w c)\<lparr>Send := (Send (heap w c))\<lparr>closed := True\<rparr>\<rparr>)"
      by (simp add: w1_def setSend_def)
    have "\<forall>c' \<in> set room. \<not> closed (Send (heap w1 c'))"
      using Cons.prems(2) notin by (auto simp: hp)
    from Cons.IH [OF dist this]
    have ih: "fanout r f room w1 = Returns (delivered r f (set room) w1)" .
    have x: "{c} = (if hasRoom w c then {} else {c})" using False by simp
    have "delivered r f (set room) w1 = delivered r f (insert c (set room)) w"
      by (rule delivered_step [OF notin evicted_world(1) [OF False w1_def] x
            evicted_world(2) [OF False w1_def] evicted_world(3) [OF False w1_def]
            evicted_world(4) [OF False w1_def] evicted_world(5) [OF False w1_def]
            evicted_world(6) [OF False w1_def]])
    with step ih show ?thesis by simp
  qed
qed

lemma fanout_closed:
  "c \<in> set room \<Longrightarrow> closed (Send (heap w c)) \<Longrightarrow> distinct room \<Longrightarrow>
     fanout r f room w = Panics SendOnClosedChannel"
proof (induction room arbitrary: w)
  case Nil
  then show ?case by simp
next
  case (Cons c' room)
  show ?case
  proof (cases "c' = c")
    case True
    with Cons.prems show ?thesis by (simp add: trySend_def)
  next
    case False
    with Cons.prems have mem: "c \<in> set room" and dist: "distinct room" by simp_all
    show ?thesis
    proof (cases "closed (Send (heap w c'))")
      case True
      then show ?thesis by (simp add: trySend_def)
    next
      case open_c': False
      show ?thesis
      proof (cases "hasRoom w c'")
        case True
        let ?w1 = "setSend c' ((Send (heap w c'))\<lparr>buf := buf (Send (heap w c')) @ [f]\<rparr>) w"
        have "closed (Send (heap ?w1 c))" using False Cons.prems(2) by (simp add: setSend_def)
        from Cons.IH [OF mem this dist] True open_c' show ?thesis
          by (simp add: trySend_def hasRoom_def)
      next
        case nofit: False
        let ?w1 = "(setSend c' ((Send (heap w c'))\<lparr>closed := True\<rparr>) w)
                 \<lparr>hub := (case rooms (hub w) r of
                       None \<Rightarrow> (hub w)\<lparr>clients := clients (hub w) - {c'}\<rparr>
                     | Some stored \<Rightarrow> (hub w)\<lparr>clients := clients (hub w) - {c'},
                          rooms := (rooms (hub w))(r \<mapsto> removeAll c' stored)\<rparr>)\<rparr>"
        have "closed (Send (heap ?w1 c))" using False Cons.prems(2) by (simp add: setSend_def)
        from Cons.IH [OF mem this dist] nofit open_c' evict_open [OF open_c', of r] show ?thesis
          by (simp add: trySend_def hasRoom_def)
      qed
    qed
  qed
qed

text \<open>The outcome of the loop does not depend on the order of the visit.\<close>

lemma fanout_order:
  assumes "distinct room" and "distinct room'" and "set room = set room'"
  shows "fanout r f room w = fanout r f room' w"
proof (cases "\<exists>c \<in> set room. closed (Send (heap w c))")
  case True
  then obtain c where c: "c \<in> set room" "closed (Send (heap w c))" by blast
  with assms fanout_closed [of c room w r f] fanout_closed [of c room' w r f]
  show ?thesis by simp
next
  case False
  with assms fanout_delivered [of room w r f] fanout_delivered [of room' w r f]
  show ?thesis by simp
qed


lemma delivered_fields:
  "DB (delivered r f S w) = DB w" "RedisClient (delivered r f S w) = RedisClient w"
  "now (delivered r f S w) = now w" "users (hub (delivered r f S w)) = users (hub w)"
  "mutex (hub (delivered r f S w)) = mutex (hub w)"
  "clients (hub (delivered r f S w)) = clients (hub w) - {c \<in> S. \<not> hasRoom w c}"
  by (simp_all add: delivered_def)

lemma delivered_rooms:
  "rooms (hub (delivered r f S w)) =
     (case rooms (hub w) r of
        None \<Rightarrow> rooms (hub w)
      | Some stored \<Rightarrow> (rooms (hub w))(r \<mapsto> filter (\<lambda>c. \<not> (c \<in> S \<and> \<not> hasRoom w c)) stored))"
  by (simp add: delivered_def)

lemma delivered_heap:
  "heap (delivered r f S w) c =
     (if c \<in> S then
        (if hasRoom w c
         then (heap w c)\<lparr>Send := (Send (heap w c))\<lparr>buf := buf (Send (heap w c)) @ [f]\<rparr>\<rparr>
         else (heap w c)\<lparr>Send := (Send (heap w c))\<lparr>closed := True\<rparr>\<rparr>)
      else heap w c)"
  by (simp add: delivered_def)

lemma delivered_mutex:
  "delivered r f S (w\<lparr>hub := (hub w)\<lparr>mutex := m\<rparr>\<rparr>) =
     (delivered r f S w)\<lparr>hub := (hub (delivered r f S w))\<lparr>mutex := m\<rparr>\<rparr>"
proof -
  have hr: "hasRoom (w\<lparr>hub := (hub w)\<lparr>mutex := m\<rparr>\<rparr>) = hasRoom w"
    by (simp add: hasRoom_def fun_eq_iff)
  show ?thesis
    by (cases "rooms (hub w) r") (simp_all add: delivered_def hr cong: if_cong)
qed

lemma mutex_reset:
  "mutex (hub w) = m \<Longrightarrow> w\<lparr>hub := (hub w)\<lparr>mutex := m\<rparr>\<rparr> = w"
  by simp

text \<open>
  A broadcast, started with the lock free on a room whose queues are all open, computes
  exactly \<open>delivered\<close>: every member with space gets the frame, every member without
  space has its queue closed and is deleted from \<open>clients\<close> and from the room set,
  and nothing else changes.
\<close>

lemma broadcastToRoom_delivered:
  assumes "mutex (hub w) = Unlocked" and "rooms (hub w) r = Some room" and "distinct room"
    and "\<forall>c \<in> set room. \<not> closed (Send (heap w c))"
  shows "broadcastToRoom r f w = Returns (delivered r f (set room) w)"
proof -
  define w1 where "w1 = w\<lparr>hub := (hub w)\<lparr>mutex := ReadLocked 1\<rparr>\<rparr>"
  have rl: "RLock w = Returns w1" using assms(1) by (simp add: RLock_def w1_def)
  have room: "rooms (hub w1) r = Some room" using assms(2) by (simp add: w1_def)
  have "\<forall>c \<in> set room. \<not> closed (Send (heap w1 c))" using assms(4) by (simp add: w1_def)
  from fanout_delivered [OF assms(3) this]
  have fo: "fanout r f room w1 = Returns (delivered r f (set room) w1)" .
  define d where "d = delivered r f (set room) w"
  have d1: "delivered r f (set room) w1 = d\<lparr>hub := (hub d)\<lparr>mutex := ReadLocked 1\<rparr>\<rparr>"
    unfolding w1_def d_def by (rule delivered_mutex)
  have md: "mutex (hub d) = Unlocked" by (simp add: d_def delivered_fields assms(1))
  have "RUnlock (d\<lparr>hub := (hub d)\<lparr>mutex := ReadLocked 1\<rparr>\<rparr>) = Returns (d\<lparr>hub := (hub d)\<lparr>mutex := Unlocked\<rparr>\<rparr>)"
    by (simp add: RUnlock_def)
  also have "d\<lparr>hub := (hub d)\<lparr>mutex := Unlocked\<rparr>\<rparr> = d" using md by (rule mutex_reset)
  finally have ru: "RUnlock (delivered r f (set room) w1) = Returns d" by (simp only: d1)
  show ?thesis
    using rl room fo ru by (simp add: broadcastToRoom_def d_def)
qed

text \<open>A broadcast never deletes a room entry and never touches the user index.\<close>

lemma broadcastToRoom_keeps_entry:
  assumes "mutex (hub w) = Unlocked" and "rooms (hub w) r = Some room" and "distinct room"
    and "\<forall>c \<in> set room. \<not> closed (Send (heap w c))"
  shows "\<exists>w'. broadcastToRoom r f w = Returns w' \<and>
              rooms (hub w') r = Some (filter (hasRoom w) room) \<and>
              users (hub w') = users (hub w) \<and>
              DB w' = DB w \<and> RedisClient w' = RedisClient w"
proof -
  have "filter (\<lambda>c. \<not> (c \<in> set room \<and> \<not> hasRoom w c)) room = filter (hasRoom w) room"
    by (rule filter_cong) auto
  then show ?thesis
    using broadcastToRoom_delivered [OF assms] assms(2)
    by (simp add: delivered_rooms delivered_fields)
qed

text \<open>
  With the row of user 1 in the store, the first registration already blocks: the client
  is in the maps, the write lock is held for good, no frame is queued, and the second
  command is never taken.
\<close>

lemma attach_with_profile_blocks:
  "(case Run [Register 0, Register 2] (world0\<lparr>DB := store0\<lparr>userRows := [1 \<mapsto> alice]\<rparr>\<rparr>) of
      Returns w' \<Rightarrow> False
    | Panics p \<Rightarrow> False
    | Blocks w' \<Rightarrow>
        mutex (hub w') = WriteLocked \<and> clients (hub w') = {0} \<and>
        buf (Send (heap w' 0)) = [])"
  by (simp add: hub_eval scene_eval alice_def)

subsection \<open>The guard of unregister\<close>

text \<open>
  The body of \<^verbatim>\<open>unregisterClient\<close> is idempotent on every world in which it comes
  to an end: afterwards the client is absent and the guard skips everything.
\<close>

lemma unregisterBody_idempotent:
  assumes "final (unregisterBody c w) = Some w'"
  shows "unregisterBody c w' = Returns w'"
proof (cases "c \<in> clients (hub w)")
  case False
  with assms show ?thesis by (simp add: unregisterBody_absent)
next
  case True
  with assms obtain ch where "final (notifyUserLeft c (removed c ch w)) = Some w'"
    by (auto simp: unregisterBody_removed split: option.splits)
  then have "shrinks (removed c ch w) w'" by (rule notifyUserLeft_shrinks)
  then have "clients (hub w') \<subseteq> clients (hub (removed c ch w))" by (simp add: shrinks_def)
  then have "c \<notin> clients (hub w')" by (auto simp: removed_hub)
  then show ?thesis by (rule unregisterBody_absent)
qed

lemma unregisterClient_absent:
  assumes "mutex (hub w) = Unlocked" and "c \<notin> clients (hub w)"
  shows "unregisterClient c w = Returns w"
proof -
  define w1 where "w1 = w\<lparr>hub := (hub w)\<lparr>mutex := WriteLocked\<rparr>\<rparr>"
  have "c \<notin> clients (hub w1)" using assms(2) by (simp add: w1_def)
  then have b: "unregisterBody c w1 = Returns w1" by (rule unregisterBody_absent)
  have "Unlock w1 = Returns (w\<lparr>hub := (hub w)\<lparr>mutex := Unlocked\<rparr>\<rparr>)"
    by (simp add: Unlock_def w1_def)
  also have "w\<lparr>hub := (hub w)\<lparr>mutex := Unlocked\<rparr>\<rparr> = w" using assms(1) by (rule mutex_reset)
  finally have u: "Unlock w1 = Returns w" .
  show ?thesis
    using assms(1) b u by (simp add: unregisterClient_def Lock_unlocked w1_def [symmetric])
qed

end
